theory Spec2Isabelle
  imports Main "HOL-Library.Signed_Division"
begin

section \<open>KAlarm: the alarm dispatch and rescheduling engine of kalarmapp.cpp\<close>

text \<open>
  A shallow embedding of the application controller \<^verbatim>\<open>KAlarmApp\<close> (src/kalarmapp.cpp):
  the lateness policy, the action queue, the dispatch engine \<^verbatim>\<open>handleEvent\<close>, the
  rescheduler and canceller, \<^verbatim>\<open>execAlarm\<close> and the command execution tracker.

  A point in time is the number of seconds of its UTC instant, an unbounded integer (the
  arithmetic of \<^verbatim>\<open>KDateTime\<close> is on 64 bits); the clock reading
  \<^verbatim>\<open>KDateTime::currentUtcDateTime()\<close> is the parameter \<open>now\<close> of every operation and
  is constant over one call of the engine.
\<close>

subsection \<open>Machine integers\<close>

text \<open>
  A C++ \<^verbatim>\<open>int\<close> has 32 bits. The value of an \<^verbatim>\<open>int\<close> variable is an integer between
  \<open>INT_MIN\<close> and \<open>INT_MAX\<close>, and the result of every operation on \<^verbatim>\<open>int\<close>, as of
  the conversion of a 64-bit result to \<^verbatim>\<open>int\<close>, is reduced to that range by \<open>int32\<close>:
  two's complement wrap-around.
\<close>

definition INT_MAX :: int where
  "INT_MAX = 2147483647"

definition INT_MIN :: int where
  "INT_MIN = - 2147483648"

definition int32 :: "int \<Rightarrow> int" where
  "int32 x = (x + 2147483648) mod 4294967296 - 2147483648"

definition inInt :: "int \<Rightarrow> bool" where
  \<comment> \<open>The exact value fits an \<^verbatim>\<open>int\<close>: the operation giving it does not overflow.\<close>
  "inInt x = (INT_MIN \<le> x \<and> x \<le> INT_MAX)"

definition SECS_PER_DAY :: int where
  "SECS_PER_DAY = 86400"

subsection \<open>Dates, alarms and events\<close>

text \<open>
  \<^verbatim>\<open>DateTime\<close> / \<^verbatim>\<open>KDateTime\<close>: the instant in seconds (for a date-only value, the
  instant of its start of day: \<^verbatim>\<open>effectiveKDateTime()\<close>), whether it is date-only,
  whether its time specification is the floating \<^verbatim>\<open>KDateTime::ClockTime\<close>, and
  \<^verbatim>\<open>isValid()\<close>. A date-only value stands for its whole day, of 86400 seconds.
\<close>

record DateTime =
  dt_secs :: int
  dt_dateOnly :: bool
  dt_clockTime :: bool
  dt_valid :: bool

definition DateTime0 :: DateTime where
  \<comment> \<open>The default-constructed, invalid \<^verbatim>\<open>DateTime()\<close>.\<close>
  "DateTime0 = \<lparr>dt_secs = 0, dt_dateOnly = False, dt_clockTime = False, dt_valid = False\<rparr>"

definition utcDateTime :: "int \<Rightarrow> DateTime" where
  \<comment> \<open>A UTC date and time such as \<^verbatim>\<open>now\<close>.\<close>
  "utcDateTime t = \<lparr>dt_secs = t, dt_dateOnly = False, dt_clockTime = False, dt_valid = True\<rparr>"

definition secsTo :: "DateTime \<Rightarrow> int \<Rightarrow> int" where
  \<comment> \<open>\<^verbatim>\<open>dt.secsTo(now)\<close>, whose result is an \<^verbatim>\<open>int\<close>: a difference of more than
      \<open>INT_MAX\<close> seconds wraps around.\<close>
  "secsTo dt now = int32 (now - dt_secs dt)"




datatype AlarmType = MAIN_ALARM | REMINDER_ALARM | DEFERRED_ALARM | AT_LOGIN_ALARM | INVALID_ALARM

datatype Action = MESSAGE | FILE | COMMAND | EMAIL | OTHER_ACTION

datatype EventFunc = EVENT_HANDLE | EVENT_TRIGGER | EVENT_CANCEL

text \<open>
  Modelled from the spec: \<^verbatim>\<open>KAAlarm\<close> (alarmevent.h is not among the sources). An alarm
  instance has a type tag, a concrete date-time, the late-cancel threshold in minutes
  (0 = never cancel) and the action kind inherited from its event.
\<close>

record KAAlarm =
  al_type :: AlarmType
  al_dateTime :: DateTime
  al_lateCancel :: int
  al_action :: Action

definition KAAlarm0 :: KAAlarm where
  \<comment> \<open>The default-constructed \<^verbatim>\<open>KAAlarm()\<close>, which is not \<^verbatim>\<open>valid()\<close>.\<close>
  "KAAlarm0 = \<lparr>al_type = INVALID_ALARM, al_dateTime = DateTime0, al_lateCancel = 0,
     al_action = OTHER_ACTION\<rparr>"

definition valid :: "KAAlarm \<Rightarrow> bool" where
  "valid a = (al_type a \<noteq> INVALID_ALARM)"

definition repeatAtLogin :: "KAAlarm \<Rightarrow> bool" where
  "repeatAtLogin a = (al_type a = AT_LOGIN_ALARM)"

definition deferred :: "KAAlarm \<Rightarrow> bool" where
  "deferred a = (al_type a = DEFERRED_ALARM)"

definition reminder :: "KAAlarm \<Rightarrow> bool" where
  "reminder a = (al_type a = REMINDER_ALARM)"

definition setTime :: "KAAlarm \<Rightarrow> DateTime \<Rightarrow> KAAlarm" where
  "setTime a dt = a\<lparr>al_dateTime := dt\<rparr>"

text \<open>
  Modelled from the spec: \<^verbatim>\<open>KAEvent\<close> (alarmevent.cpp is not among the sources). An
  event owns its alarm instances, at most one of each type; the fields are the
  attributes that kalarmapp.cpp reads through the accessors of the same names.
\<close>

record KAEvent =
  eventID :: string
  alarms :: "KAAlarm list"
  repeatCount :: int
  recurs :: bool
  enabled :: bool
  toBeArchived :: bool
  displaying :: bool
  cancelledDeferral :: bool
  updated :: bool
  preAction :: string
  postAction :: string
  commandXterm :: bool
  commandScript :: bool
  cleanText :: string
  logFile :: string

definition alarmOfType :: "KAEvent \<Rightarrow> AlarmType \<Rightarrow> KAAlarm option" where
  "alarmOfType ev t = find (\<lambda>a. al_type a = t) (alarms ev)"

fun firstOfTypes :: "KAEvent \<Rightarrow> AlarmType list \<Rightarrow> KAAlarm" where
  "firstOfTypes ev [] = KAAlarm0"
| "firstOfTypes ev (t # ts) =
     (case alarmOfType ev t of Some a \<Rightarrow> a | None \<Rightarrow> firstOfTypes ev ts)"

definition laterTypes :: "AlarmType \<Rightarrow> AlarmType list" where
  \<comment> \<open>The fixed enumeration order: main, reminder, deferred, at-login.\<close>
  "laterTypes t = (case t of
      MAIN_ALARM \<Rightarrow> [REMINDER_ALARM, DEFERRED_ALARM, AT_LOGIN_ALARM]
    | REMINDER_ALARM \<Rightarrow> [DEFERRED_ALARM, AT_LOGIN_ALARM]
    | DEFERRED_ALARM \<Rightarrow> [AT_LOGIN_ALARM]
    | AT_LOGIN_ALARM \<Rightarrow> []
    | INVALID_ALARM \<Rightarrow> [])"

definition firstAlarm :: "KAEvent \<Rightarrow> KAAlarm" where
  \<comment> \<open>Modelled from the spec: \<^verbatim>\<open>KAEvent::firstAlarm()\<close>, the main alarm first; the
      invalid alarm when the event has none.\<close>
  "firstAlarm ev = firstOfTypes ev (MAIN_ALARM # laterTypes MAIN_ALARM)"

definition nextAlarm :: "KAEvent \<Rightarrow> KAAlarm \<Rightarrow> KAAlarm" where
  \<comment> \<open>Modelled from the spec: \<^verbatim>\<open>KAEvent::nextAlarm(alarm)\<close>, the next alarm of the
      event in the fixed order of the types.\<close>
  "nextAlarm ev previousAlarm = firstOfTypes ev (laterTypes (al_type previousAlarm))"

definition alarmCount :: "KAEvent \<Rightarrow> nat" where
  \<comment> \<open>Modelled from the spec: \<^verbatim>\<open>KAEvent::alarmCount()\<close>.\<close>
  "alarmCount ev = length (alarms ev)"

definition removeExpiredAlarm :: "KAEvent \<Rightarrow> AlarmType \<Rightarrow> KAEvent" where
  \<comment> \<open>Modelled from the spec: \<^verbatim>\<open>KAEvent::removeExpiredAlarm(type)\<close> removes the alarm
      instance of that type.\<close>
  "removeExpiredAlarm ev t = ev\<lparr>alarms := filter (\<lambda>a. al_type a \<noteq> t) (alarms ev)\<rparr>"

definition setArchive :: "KAEvent \<Rightarrow> KAEvent" where
  \<comment> \<open>Modelled from the spec: \<^verbatim>\<open>KAEvent::setArchive()\<close> marks the event for archiving.\<close>
  "setArchive ev = ev\<lparr>toBeArchived := True\<rparr>"

definition cancelCancelledDeferral :: "KAEvent \<Rightarrow> KAEvent" where
  \<comment> \<open>Modelled from the spec: \<^verbatim>\<open>KAEvent::cancelCancelledDeferral()\<close> clears the
      cancelled-deferral marker.\<close>
  "cancelCancelledDeferral ev = ev\<lparr>cancelledDeferral := False\<rparr>"

definition setUpdated :: "KAEvent \<Rightarrow> KAEvent" where
  \<comment> \<open>Modelled from the spec: \<^verbatim>\<open>KAEvent::setUpdated()\<close> notes that the calendar needs
      an update.\<close>
  "setUpdated ev = ev\<lparr>updated := True\<rparr>"

definition setEventID :: "KAEvent \<Rightarrow> string \<Rightarrow> KAEvent" where
  \<comment> \<open>Modelled from the spec: \<^verbatim>\<open>KAEvent::setEventID(id)\<close>.\<close>
  "setEventID ev i = ev\<lparr>eventID := i\<rparr>"

definition eventDeferred :: "KAEvent \<Rightarrow> bool" where
  \<comment> \<open>Modelled from the spec: \<^verbatim>\<open>KAEvent::deferred()\<close>, the event has a deferred alarm
      instance.\<close>
  "eventDeferred ev = (alarmOfType ev DEFERRED_ALARM \<noteq> None)"

text \<open>
  The result of advancing or querying a recurrence (\<^verbatim>\<open>KAEvent::OccurType\<close>): the kind of
  occurrence, paired with the \<^verbatim>\<open>OCCURRENCE_REPEAT\<close> bit.
\<close>

datatype OccurKind = NO_OCCURRENCE | FIRST_OR_ONLY_OCCURRENCE | RECURRENCE_DATE
  | RECURRENCE_DATE_TIME | LAST_RECURRENCE

type_synonym OccurType = "OccurKind \<times> bool"

subsection \<open>Collaborators\<close>

text \<open>
  The command execution record \<^verbatim>\<open>KAlarmApp::ProcData\<close>. Its declaration (kalarmapp.h)
  is not among the sources; the flags are those the spec lists (is-pre-action,
  is-post-action, allow-defer, reschedule-after, run-in-terminal, uses-temp-file), under
  the names kalarmapp.cpp uses. A process is a handle; \<open>pd_command\<close> is
  \<^verbatim>\<open>process->command()\<close>, \<open>pd_messageBoxParent\<close> says whether the pointer is set.
\<close>

datatype ProcFlag = PRE_ACTION | POST_ACTION | RESCHEDULE | ALLOW_DEFER | TEMP_FILE | EXEC_IN_XTERM

record ProcData =
  pd_process :: nat
  pd_command :: string
  pd_logProcess :: "nat option"
  pd_event :: KAEvent
  pd_alarm :: "KAAlarm option"
  pd_messageBoxParent :: bool
  pd_flags :: "ProcFlag set"
  pd_tempFiles :: "string list"

text \<open>An entry of \<^verbatim>\<open>mDcopQueue\<close>: a new alarm when \<open>q_eventId\<close> is empty.\<close>

record DcopQEntry =
  q_function :: EventFunc
  q_eventId :: string
  q_event :: KAEvent

text \<open>
  Modelled from the spec: the display collaborator \<^verbatim>\<open>MessageWin\<close> (messagewin.cpp is
  not among the sources): the open alarm windows, found by event id.
\<close>

record MessageWin =
  win_eventId :: string
  win_hasDefer :: bool
  win_alarmType :: AlarmType

text \<open>
  What the engine asks of its collaborators, in the order it asks. \<open>ExecAlarm\<close> marks
  an entry into \<^verbatim>\<open>execAlarm\<close> with its arguments, so that calls can be counted.
\<close>

datatype Effect =
    EventHandled string
  | ExecAlarm KAEvent KAAlarm bool bool bool
  | ShowMessage KAEvent KAAlarm bool bool
  | ShowError KAEvent DateTime "string list"
  | WinSetRecreating string
  | WinDelete string
  | WinRepeat string KAAlarm
  | ProcStart nat string
  | LogStart nat string
  | LogWrite nat string
  | LogStdinExit nat
  | DialogDelete
  | MessageBoxError string
  | MailSend KAEvent bool
  | ReadBeyondEnd "string list" nat
  | FileRemove string
  | ListModifyEvent KAEvent
  | ResetDaemonIfQueued
  | PurgeIfQueued
  | SingleShotProcessQueue
  | MainWindowCloseAll
  | TrayIconHide

type_synonym Calendar = "(string \<times> KAEvent) list"

text \<open>
  The application object. \<open>calendar\<close> is the store \<^verbatim>\<open>AlarmCalendar::resources()\<close>,
  \<open>windows\<close> the open alarm windows, \<open>trace\<close> the requests made so far, \<open>exited\<close>
  the code given to \<^verbatim>\<open>exit()\<close>.
\<close>

record KAlarmApp =
  mInitialised :: bool
  mProcessingQueue :: bool
  mPendingQuit :: bool
  mPendingQuitCode :: int
  mActiveCount :: int
  mDcopQueue :: "DcopQEntry list"
  mCommandProcesses :: "ProcData list"
  calendar :: Calendar
  windows :: "MessageWin list"
  nextProcess :: nat
  trace :: "Effect list"
  exited :: "int option"

text \<open>
  The arguments of \<^verbatim>\<open>scheduleEvent\<close> that decide its control flow or describe the new
  event; the colours, the font, the sound file and the mail fields only reach the
  constructor of \<^verbatim>\<open>KAEvent\<close>.
\<close>

record ScheduleArgs =
  sa_action :: Action
  sa_text :: string
  sa_dateTime :: DateTime
  sa_lateCancel :: int
  sa_flags :: int
  sa_reminderMinutes :: int
  sa_repeatInterval :: int
  sa_repeatCount :: int

text \<open>
  The operations of the other classes that kalarmapp.cpp calls and whose code is not among
  the sources are parameters: the daemon's check interval, the recurrence queries of
  \<^verbatim>\<open>KAEvent\<close>, the storage functions of namespace \<^verbatim>\<open>KAlarm\<close>, the outcome of
  starting a process, of writing a script file and of sending mail, the default
  arguments that kalarmapp.h declares, the default-constructed \<^verbatim>\<open>KAEvent()\<close> and the
  event that \<^verbatim>\<open>scheduleEvent\<close> constructs and fills in (\<open>newEvent\<close>).
\<close>

record Env =
  maxTimeSinceCheck :: int
  laterThanClockNow :: "DateTime \<Rightarrow> int \<Rightarrow> bool"
  previousOccurrence :: "KAEvent \<Rightarrow> int \<Rightarrow> bool \<Rightarrow> OccurType \<times> DateTime"
  setNextOccurrence :: "KAEvent \<Rightarrow> int \<Rightarrow> OccurType \<times> KAEvent"
  setNextOccurrence2 :: "KAEvent \<Rightarrow> int \<Rightarrow> bool \<Rightarrow> OccurType \<times> KAEvent"
  mainEndRepeatTime :: "KAEvent \<Rightarrow> int"
  kAddEvent :: "KAEvent \<Rightarrow> Calendar \<Rightarrow> Calendar"
  kUpdateEvent :: "KAEvent \<Rightarrow> Calendar \<Rightarrow> Calendar"
  kDeleteEvent :: "KAEvent \<Rightarrow> bool \<Rightarrow> Calendar \<Rightarrow> Calendar"
  kAddArchivedEvent :: "KAEvent \<Rightarrow> Calendar \<Rightarrow> string \<times> Calendar"
  authorised :: bool
  cmdXTermCommand :: string
  programName :: string
  shellQuote :: "string \<Rightarrow> string"
  formatLocale :: "DateTime \<Rightarrow> string"
  tempFileName :: "string \<Rightarrow> bool \<Rightarrow> string"
  processStarts :: "string \<Rightarrow> bool"
  startErrorMessage :: "string \<Rightarrow> string"
  mailSend :: "KAEvent \<Rightarrow> bool \<Rightarrow> bool \<times> string list"
  mainWindowsRemain :: bool
  trayIconHoused :: bool
  defaultAllowDefer :: bool
  defaultNoPreAction :: bool
  defaultEvent :: KAEvent
  newEvent :: "DateTime \<Rightarrow> ScheduleArgs \<Rightarrow> KAEvent"

definition emit :: "Effect list \<Rightarrow> KAlarmApp \<Rightarrow> KAlarmApp" where
  "emit es s = s\<lparr>trace := trace s @ es\<rparr>"

subsection \<open>Lateness policy\<close>

definition LATENESS_LEEWAY :: int where
  "LATENESS_LEEWAY = 5"

definition maxLateness :: "Env \<Rightarrow> int \<Rightarrow> int" where
  \<comment> \<open>Every operation is on \<^verbatim>\<open>int\<close>.\<close>
  "maxLateness env lateCancel =
     (let lc = (if lateCancel \<ge> 1 then int32 (int32 (lateCancel - 1) * 60) else 0)
      in int32 (int32 (maxTimeSinceCheck env + LATENESS_LEEWAY) + lc))"

subsection \<open>Quitting\<close>

definition quitIf :: "Env \<Rightarrow> int \<Rightarrow> bool \<Rightarrow> KAlarmApp \<Rightarrow> KAlarmApp" where
  \<comment> \<open>\<^verbatim>\<open>MessageWin::instanceCount()\<close> is the number of open windows; the checks on the
      main windows and on the tray icon are parameters.\<close>
  "quitIf env exitCode force s =
     (if force then
        (let s1 = emit [MainWindowCloseAll, TrayIconHide] s
         in if windows s1 \<noteq> [] then s1 else s1\<lparr>exited := Some exitCode\<rparr>)
      else
        (let s1 = s\<lparr>mPendingQuit := False\<rparr>
         in if mActiveCount s1 > 0 \<or> windows s1 \<noteq> [] then s1
            else if mainWindowsRemain env then s1
            else if trayIconHoused env then s1
            else if mDcopQueue s1 \<noteq> [] \<or> mCommandProcesses s1 \<noteq> []
              then s1\<lparr>mPendingQuit := True, mPendingQuitCode := exitCode\<rparr>
            else s1\<lparr>exited := Some exitCode\<rparr>))"

subsection \<open>Rescheduler and canceller\<close>

text \<open>
  \<^verbatim>\<open>KAlarm::addArchivedEvent(event)\<close> changes the ID of the event it is given, as the
  comment in \<^verbatim>\<open>cancelAlarm\<close> says: \<open>kAddArchivedEvent env\<close> returns the new ID with the
  calendar.
\<close>

definition cancelAlarm ::
  "Env \<Rightarrow> KAEvent \<Rightarrow> AlarmType \<Rightarrow> bool \<Rightarrow> KAlarmApp \<Rightarrow> KAEvent \<times> KAlarmApp" where
  "cancelAlarm env event0 alarmType updateCalAndDisplay s0 =
     (let event1 = cancelCancelledDeferral event0;
          (event2, s1) =
            (if alarmType = MAIN_ALARM \<and> \<not> displaying event1 \<and> toBeArchived event1
             then (let ident = eventID event1;
                       (archivedID, cal) = kAddArchivedEvent env event1 (calendar s0)
                   in (setEventID (setEventID event1 archivedID) ident, s0\<lparr>calendar := cal\<rparr>))
             else (event1, s0));
          event3 = removeExpiredAlarm event2 alarmType
      in if alarmCount event3 = 0
           then (event3, s1\<lparr>calendar := kDeleteEvent env event3 False (calendar s1)\<rparr>)
         else if updateCalAndDisplay
           then (event3, s1\<lparr>calendar := kUpdateEvent env event3 (calendar s1)\<rparr>)
         else (event3, s1))"

definition advanceRecurrence ::
  "Env \<Rightarrow> int \<Rightarrow> KAEvent \<Rightarrow> KAAlarm \<Rightarrow> bool \<Rightarrow> KAlarmApp
     \<Rightarrow> KAEvent \<times> KAlarmApp \<times> bool \<times> bool" where
  \<comment> \<open>The last branch of \<^verbatim>\<open>rescheduleAlarm\<close> (neither reminder, deferred nor at-login),
      up to the removal of a lingering deferred alarm; the result carries the flags
      \<^verbatim>\<open>update\<close> and \<^verbatim>\<open>updateDisplay\<close>.\<close>
  "advanceRecurrence env now event alarm updateCalAndDisplay s =
     (if repeatCount event \<noteq> 0 \<and> mainEndRepeatTime env event > now
        then (event, s, False, True)
      else
        (case setNextOccurrence env event now of (occ, evN) \<Rightarrow>
           if occ = (NO_OCCURRENCE, False)
             then (case cancelAlarm env evN (al_type alarm) updateCalAndDisplay s of
                     (e, s') \<Rightarrow> (e, s', False, False))
           else if occ = (RECURRENCE_DATE, False) \<or> occ = (RECURRENCE_DATE_TIME, False)
                   \<or> occ = (LAST_RECURRENCE, False)
             then (if updateCalAndDisplay then (evN, s, True, False)
                   else (setUpdated (cancelCancelledDeferral evN), s, False, False))
           else (evN, s, False, False)))"

definition rescheduleAlarm ::
  "Env \<Rightarrow> int \<Rightarrow> KAEvent \<Rightarrow> KAAlarm \<Rightarrow> bool \<Rightarrow> KAlarmApp \<Rightarrow> KAEvent \<times> KAlarmApp" where
  "rescheduleAlarm env now event alarm updateCalAndDisplay s =
     (case
        (if reminder alarm \<or> deferred alarm
           then (removeExpiredAlarm event (al_type alarm), s, True, False)
         else if repeatAtLogin alarm
           then (event, s, updateCalAndDisplay \<and> updated event, False)
         else
           (case advanceRecurrence env now event alarm updateCalAndDisplay s of
              (ev2, s2, upd2, disp2) \<Rightarrow>
                if eventDeferred ev2
                  then (removeExpiredAlarm ev2 DEFERRED_ALARM, s2, True, disp2)
                else (ev2, s2, upd2, disp2)))
      of (event1, s1, update, updateDisplay) \<Rightarrow>
        if update
          then (let e = cancelCancelledDeferral event1
                in (e, s1\<lparr>calendar := kUpdateEvent env e (calendar s1)\<rparr>))
        else if updateDisplay
          then (event1, emit [EventHandled (eventID event1), ListModifyEvent event1] s1)
        else (event1, s1))"

subsection \<open>Command execution tracker\<close>

definition startsWith :: "string \<Rightarrow> string \<Rightarrow> bool" where
  "startsWith p str = (take (length p) str = p)"

fun contains :: "string \<Rightarrow> string \<Rightarrow> bool" where
  \<comment> \<open>\<^verbatim>\<open>str.indexOf(p) >= 0\<close>\<close>
  "contains p [] = (p = [])"
| "contains p (c # cs) = (startsWith p (c # cs) \<or> contains p cs)"

function replace :: "string \<Rightarrow> string \<Rightarrow> string \<Rightarrow> string" where
  \<comment> \<open>\<^verbatim>\<open>str.replace(before, after)\<close>: every occurrence, from the left.\<close>
  "replace before after [] = []"
| "replace before after (c # cs) =
     (if before \<noteq> [] \<and> startsWith before (c # cs)
        then after @ replace before after (drop (length before) (c # cs))
      else c # replace before after cs)"
  by pat_completeness auto
termination
  by (relation "measure (\<lambda>(before, after, str). length str)") (auto simp: neq_Nil_conv)

definition newline :: string where
  "newline = [CHR 0x0A]"

definition removeAt :: "nat \<Rightarrow> 'a list \<Rightarrow> 'a list" where
  \<comment> \<open>\<^verbatim>\<open>QList::removeAt(i)\<close>: nothing happens when \<open>i\<close> is out of range.\<close>
  "removeAt i xs = take i xs @ drop (Suc i) xs"

definition deleteProcData :: "ProcData \<Rightarrow> KAlarmApp \<Rightarrow> KAlarmApp" where
  \<comment> \<open>\<^verbatim>\<open>ProcData::~ProcData()\<close>: each temporary file is removed.\<close>
  "deleteProcData pd s = emit (map FileRemove (pd_tempFiles pd)) s"

definition commandErrorMsg ::
  "string \<Rightarrow> string \<Rightarrow> KAEvent \<Rightarrow> KAAlarm option \<Rightarrow> ProcFlag set \<Rightarrow> KAlarmApp \<Rightarrow> KAlarmApp" where
  \<comment> \<open>The process is given by its \<^verbatim>\<open>errorMessage()\<close> and its \<^verbatim>\<open>command()\<close>.\<close>
  "commandErrorMsg errorMessage procCommand event alarm flags s =
     (let errmsgs =
            (if PRE_ACTION \<in> flags then [''Pre-alarm action:'']
             else if POST_ACTION \<in> flags then [''Post-alarm action:''] else [])
            @ [errorMessage]
            @ (if TEMP_FILE \<notin> flags then [procCommand] else [])
      in emit [ShowError event (case alarm of Some a \<Rightarrow> al_dateTime a | None \<Rightarrow> DateTime0)
                 errmsgs] s)"

definition createTempScriptFile ::
  "Env \<Rightarrow> string \<Rightarrow> bool \<Rightarrow> KAEvent \<Rightarrow> KAAlarm \<Rightarrow> KAlarmApp \<Rightarrow> string \<times> KAlarmApp" where
  \<comment> \<open>\<open>tempFileName env\<close> is the path of the file written, empty when creating or
     writing it failed.\<close>
  "createTempScriptFile env command insertShell event alarm s =
     (let fileName = tempFileName env command insertShell
      in if fileName \<noteq> [] then (fileName, s)
         else ([], emit [ShowError event (al_dateTime alarm)
                           [''Error creating temporary script file'']] s))"

definition startProcess ::
  "Env \<Rightarrow> string \<Rightarrow> bool \<Rightarrow> string \<Rightarrow> string \<Rightarrow> KAEvent \<Rightarrow> KAAlarm \<Rightarrow> ProcFlag set
     \<Rightarrow> KAlarmApp \<Rightarrow> nat option \<times> KAlarmApp" where
  \<comment> \<open>\<^verbatim>\<open>doShellCommand\<close> from \<^verbatim>\<open>new ShellProcess(cmd)\<close> on; \<open>allOutput\<close> is
      \<^verbatim>\<open>comms == KProcess::AllOutput\<close>. The record appended last is the one
      \<^verbatim>\<open>indexOf(pd)\<close> finds.\<close>
  "startProcess env cmd allOutput tmpXtermFile command event alarm flags s =
     (let proc = nextProcess s;
          logging = (allOutput \<and> logFile event \<noteq> []);
          heading = (if dt_valid (al_dateTime alarm)
                     then newline @ ''******* KAlarm '' @ formatLocale env (al_dateTime alarm)
                          @ '' *******'' @ newline
                     else newline @ ''******* KAlarm *******'' @ newline);
          s1 = (if logging
                then emit [LogStart (Suc proc) (''cat >>'' @ logFile event),
                           LogWrite (Suc proc) heading] s
                else s);
          pd = \<lparr>pd_process = proc, pd_command = cmd,
                pd_logProcess = (if logging then Some (Suc proc) else None),
                pd_event = event, pd_alarm = Some alarm, pd_messageBoxParent = False,
                pd_flags = flags,
                pd_tempFiles = (if TEMP_FILE \<in> flags then [command] else [])
                               @ (if tmpXtermFile \<noteq> [] then [tmpXtermFile] else [])\<rparr>;
          s2 = s1\<lparr>mCommandProcesses := mCommandProcesses s1 @ [pd],
                  nextProcess := proc + 2\<rparr>
      in if processStarts env cmd then (Some proc, emit [ProcStart proc cmd] s2)
         else
           (let s3 = commandErrorMsg (startErrorMessage env cmd) cmd event (Some alarm) flags s2;
                s4 = s3\<lparr>mCommandProcesses :=
                          removeAt (length (mCommandProcesses s1)) (mCommandProcesses s3)\<rparr>
            in (None, deleteProcData pd s4)))"

definition doShellCommand ::
  "Env \<Rightarrow> string \<Rightarrow> KAEvent \<Rightarrow> KAAlarm \<Rightarrow> ProcFlag set \<Rightarrow> KAlarmApp \<Rightarrow> nat option \<times> KAlarmApp" where
  \<comment> \<open>Called with the address of an alarm everywhere but in \<^verbatim>\<open>alarmCompleted\<close>
      (post-alarm actions), which is not modelled.\<close>
  "doShellCommand env command event alarm flags s =
     (if EXEC_IN_XTERM \<in> flags then
        (let cmd = replace ''%t'' (programName env) (cmdXTermCommand env)
         in if contains ''%C'' cmd then
              (if TEMP_FILE \<in> flags
                 then startProcess env (replace ''%C'' command cmd) False [] command event alarm
                        flags s
               else
                 (case createTempScriptFile env command True event alarm s of
                    (tmpXtermFile, s1) \<Rightarrow>
                      if tmpXtermFile = [] then (None, s1)
                      else startProcess env (replace ''%C'' tmpXtermFile cmd) False tmpXtermFile
                             command event alarm flags s1))
            else if contains ''%W'' cmd then
              (case createTempScriptFile env (command @ newline @ ''sleep 86400'' @ newline)
                      True event alarm s of
                 (tmpXtermFile, s1) \<Rightarrow>
                   if tmpXtermFile = [] then (None, s1)
                   else startProcess env (replace ''%W'' tmpXtermFile cmd) False tmpXtermFile
                          command event alarm flags s1)
            else if contains ''%w'' cmd then
              startProcess env (replace ''%w'' (shellQuote env (command @ ''; sleep 86400'')) cmd)
                False [] command event alarm flags s
            else
              (let exec = shellQuote env command
               in startProcess env
                    (if contains ''%c'' cmd then replace ''%c'' exec cmd else cmd @ exec)
                    False [] command event alarm flags s))
      else startProcess env command True [] command event alarm flags s)"

subsection \<open>Executing an alarm\<close>

text \<open>The reply of \<^verbatim>\<open>execAlarm\<close>: 0, \<^verbatim>\<open>(void*)1\<close>, or the process started.\<close>

datatype ExecResult = ExecNull | ExecOne | ExecProcess nat

definition procResult :: "nat option \<times> KAlarmApp \<Rightarrow> ExecResult \<times> KAlarmApp" where
  "procResult r = (case r of (Some proc, s) \<Rightarrow> (ExecProcess proc, s) | (None, s) \<Rightarrow> (ExecNull, s))"

definition findEvent :: "KAlarmApp \<Rightarrow> string \<Rightarrow> MessageWin option" where
  \<comment> \<open>Modelled from the spec: \<^verbatim>\<open>MessageWin::findEvent(id)\<close>, the open window of the
      event, if any.\<close>
  "findEvent s ident = find (\<lambda>w. win_eventId w = ident) (windows s)"

definition deleteWin :: "MessageWin option \<Rightarrow> KAlarmApp \<Rightarrow> KAlarmApp" where
  \<comment> \<open>\<^verbatim>\<open>delete win\<close>, which does nothing for a null pointer.\<close>
  "deleteWin win s =
     (case win of None \<Rightarrow> s
      | Some w \<Rightarrow> emit [WinDelete (win_eventId w)] (s\<lparr>windows := remove1 w (windows s)\<rparr>))"

definition winRepeat :: "Env \<Rightarrow> int \<Rightarrow> MessageWin \<Rightarrow> KAAlarm \<Rightarrow> KAlarmApp \<Rightarrow> KAlarmApp" where
  \<comment> \<open>Modelled from the spec: \<^verbatim>\<open>MessageWin::repeat(alarm)\<close> raises the window again and, as
      the comment at its call says, reschedules the alarm. The window is given the alarm
      only: it reschedules the event that the calendar holds under its event ID, with an
      immediate update, and nothing when the calendar holds none.\<close>
  "winRepeat env now w alarm s =
     (let s1 = emit [WinRepeat (win_eventId w) alarm] s
      in case map_of (calendar s1) (win_eventId w) of
           None \<Rightarrow> s1
         | Some ev \<Rightarrow> snd (rescheduleAlarm env now ev alarm True s1))"

definition freshWindow :: "MessageWin option \<Rightarrow> KAAlarm \<Rightarrow> bool" where
  \<comment> \<open>\<^verbatim>\<open>!win || !win->hasDefer() && !alarm.repeatAtLogin()
      || (win->alarmType() & REMINDER_ALARM) && !(alarm.type() & REMINDER_ALARM)\<close>\<close>
  "freshWindow win alarm =
     (case win of None \<Rightarrow> True
      | Some w \<Rightarrow> (\<not> win_hasDefer w \<and> \<not> repeatAtLogin alarm)
          \<or> (win_alarmType w = REMINDER_ALARM \<and> al_type alarm \<noteq> REMINDER_ALARM))"

definition showAlarm ::
  "Env \<Rightarrow> int \<Rightarrow> KAEvent \<Rightarrow> KAAlarm \<Rightarrow> bool \<Rightarrow> bool \<Rightarrow> MessageWin option \<Rightarrow> KAlarmApp
     \<Rightarrow> KAlarmApp" where
  \<comment> \<open>The display of a message or file alarm, from \<^verbatim>\<open>if (!event.enabled())\<close> on. The
      window created is recorded with the flags \<^verbatim>\<open>NO_RESCHEDULE\<close> and \<^verbatim>\<open>NO_DEFER\<close>.\<close>
  "showAlarm env now event alarm reschedule allowDefer win s =
     (if \<not> enabled event then deleteWin win s
      else if freshWindow win alarm
        then
          (let s1 = (case win of None \<Rightarrow> s | Some w \<Rightarrow> emit [WinSetRecreating (win_eventId w)] s);
               s2 = deleteWin win s1;
               s3 = emit [ShowMessage event alarm (\<not> reschedule) (\<not> allowDefer)] s2
           in s3\<lparr>windows := windows s3 @ [\<lparr>win_eventId = eventID event,
                    win_hasDefer = allowDefer, win_alarmType = al_type alarm\<rparr>]\<rparr>)
      else (case win of None \<Rightarrow> s | Some w \<Rightarrow> winRepeat env now w alarm s))"

definition execDisplay ::
  "Env \<Rightarrow> int \<Rightarrow> KAEvent \<Rightarrow> KAAlarm \<Rightarrow> bool \<Rightarrow> bool \<Rightarrow> bool \<Rightarrow> KAlarmApp
     \<Rightarrow> ExecResult \<times> KAlarmApp" where
  \<comment> \<open>\<^verbatim>\<open>case KAAlarm::MESSAGE: case KAAlarm::FILE:\<close>\<close>
  "execDisplay env now event alarm reschedule allowDefer noPreAction s =
     (let win = findEvent s (eventID event)
      in if win = None \<and> \<not> noPreAction \<and> preAction event \<noteq> [] \<and> authorised env
           then
             (let flags = (if reschedule then {RESCHEDULE} else {})
                          \<union> (if allowDefer then {ALLOW_DEFER} else {})
              in case doShellCommand env (preAction event) event alarm (flags \<union> {PRE_ACTION}) s of
                   (Some proc, s1) \<Rightarrow> (ExecOne, s1)
                 | (None, s1) \<Rightarrow>
                     (ExecOne, showAlarm env now event alarm reschedule allowDefer win s1))
         else (ExecOne, showAlarm env now event alarm reschedule allowDefer win s))"

definition execCommand ::
  "Env \<Rightarrow> KAEvent \<Rightarrow> KAAlarm \<Rightarrow> KAlarmApp \<Rightarrow> ExecResult \<times> KAlarmApp" where
  \<comment> \<open>\<^verbatim>\<open>case KAAlarm::COMMAND:\<close> up to the reschedule.\<close>
  "execCommand env event alarm s =
     (let flags = (if commandXterm event then {EXEC_IN_XTERM} else {});
          command = cleanText event
      in if commandScript event then
           (case createTempScriptFile env command False event alarm s of
              (tmpfile, s1) \<Rightarrow>
                if tmpfile = []
                  then (ExecNull, emit [ShowError event (al_dateTime alarm)
                                          [''Error creating temporary script file'']] s1)
                else procResult (doShellCommand env tmpfile event alarm (flags \<union> {TEMP_FILE}) s1))
         else procResult (doShellCommand env command event alarm flags s))"

definition execEmail ::
  "Env \<Rightarrow> KAEvent \<Rightarrow> KAAlarm \<Rightarrow> bool \<Rightarrow> bool \<Rightarrow> KAlarmApp \<Rightarrow> ExecResult \<times> KAlarmApp" where
  \<comment> \<open>\<^verbatim>\<open>case KAAlarm::EMAIL:\<close> up to the reschedule. When there are messages, the debug
      line reads \<^verbatim>\<open>errmsgs[1]\<close>: for a list of one message the index is out of range,
      which \<^verbatim>\<open>QList\<close> does not define (an assertion in a debug build); the read is
      recorded as \<open>ReadBeyondEnd\<close>.\<close>
  "execEmail env event alarm reschedule allowDefer s =
     (case mailSend env event (reschedule \<or> allowDefer) of
        (sent, errmsgs) \<Rightarrow>
          (let s1 = emit [MailSend event (reschedule \<or> allowDefer)] s;
               s2 = (if errmsgs \<noteq> []
                     then emit ((if length errmsgs \<le> 1 then [ReadBeyondEnd errmsgs 1] else [])
                                @ [ShowError event (al_dateTime alarm) errmsgs]) s1
                     else s1)
           in (if sent then ExecOne else ExecNull, s2)))"

definition execAlarm ::
  "Env \<Rightarrow> int \<Rightarrow> KAEvent \<Rightarrow> KAAlarm \<Rightarrow> bool \<Rightarrow> bool \<Rightarrow> bool \<Rightarrow> KAlarmApp
     \<Rightarrow> ExecResult \<times> KAEvent \<times> KAlarmApp" where
  "execAlarm env now event0 alarm reschedule allowDefer noPreAction s0 =
     (let s = emit [ExecAlarm event0 alarm reschedule allowDefer noPreAction] s0
      in if \<not> enabled event0 then
           (if reschedule
              then (case rescheduleAlarm env now event0 alarm True s of
                      (e, s1) \<Rightarrow> (ExecNull, e, s1))
            else (ExecNull, event0, s))
         else
           (let event = setArchive event0
            in if al_action alarm = MESSAGE \<or> al_action alarm = FILE then
                 (case execDisplay env now event alarm reschedule allowDefer noPreAction s of
                    (result, s1) \<Rightarrow> (result, event, s1))
               else if al_action alarm = COMMAND then
                 (case execCommand env event alarm s of
                    (result, s1) \<Rightarrow>
                      if reschedule
                        then (case rescheduleAlarm env now event alarm True s1 of
                                (e, s2) \<Rightarrow> (result, e, s2))
                      else (result, event, s1))
               else if al_action alarm = EMAIL then
                 (case execEmail env event alarm reschedule allowDefer s of
                    (result, s1) \<Rightarrow>
                      if reschedule
                        then (case rescheduleAlarm env now event alarm True s1 of
                                (e, s2) \<Rightarrow> (result, e, s2))
                      else (result, event, s1))
               else (ExecNull, event, s)))"

subsection \<open>Dispatch engine\<close>

text \<open>The local variables of the alarm loop of \<^verbatim>\<open>handleEvent\<close>, with the event.\<close>

record Scan =
  sc_event :: KAEvent
  sc_repeatDT :: DateTime
  sc_updateCalAndDisplay :: bool
  sc_alarmToExecuteValid :: bool
  sc_alarmToExecute :: KAAlarm

definition lateOrCancel :: "KAEvent \<Rightarrow> OccurType \<Rightarrow> bool \<Rightarrow> bool \<times> bool" where
  \<comment> \<open>\<^verbatim>\<open>switch (type & ~KAEvent::OCCURRENCE_REPEAT)\<close>: the flags (late, cancel);
      \<open>tooLate\<close> is the test on the occurrence found.\<close>
  "lateOrCancel event occ tooLate =
     (if fst occ = NO_OCCURRENCE then (True, False)
      else if tooLate then
        (if occ = (LAST_RECURRENCE, False)
            \<or> (occ = (FIRST_OR_ONLY_OCCURRENCE, False) \<and> \<not> recurs event)
           then (False, True)
         else (True, False))
      else (False, False))"

definition lateCancelCheck :: "Env \<Rightarrow> int \<Rightarrow> KAEvent \<Rightarrow> KAAlarm \<Rightarrow> int \<Rightarrow> bool \<times> bool" where
  \<comment> \<open>The flags (late, cancel) of \<^verbatim>\<open>if (alarm.lateCancel())\<close>. A day is 86400 seconds.\<close>
  "lateCancelCheck env now event alarm secs =
     (if dt_dateOnly (al_dateTime alarm) then
        (let maxlate = al_lateCancel alarm sdiv 1440;
             limit = dt_secs (al_dateTime alarm) + (maxlate + 1) * SECS_PER_DAY
         in if now \<ge> limit then
              (case previousOccurrence env event now True of
                 (occ, next) \<Rightarrow>
                   lateOrCancel event occ (now \<ge> dt_secs next + (maxlate + 1) * SECS_PER_DAY))
            else (False, False))
      else
        (let maxlate = maxLateness env (al_lateCancel alarm)
         in if secs > maxlate then
              (case previousOccurrence env event now True of
                 (occ, next) \<Rightarrow> lateOrCancel event occ (secsTo next now > maxlate))
            else (False, False)))"

definition selectAlarm :: "KAAlarm \<Rightarrow> Scan \<Rightarrow> Scan" where
  \<comment> \<open>\<^verbatim>\<open>if (!alarmToExecuteValid) ...\<close> at the end of the loop body.\<close>
  "selectAlarm alarm sc =
     (if \<not> sc_alarmToExecuteValid sc
        then sc\<lparr>sc_alarmToExecute := alarm, sc_alarmToExecuteValid := True\<rparr>
      else sc)"

definition scanAlarm :: "Env \<Rightarrow> int \<Rightarrow> KAAlarm \<Rightarrow> Scan \<times> KAlarmApp \<Rightarrow> Scan \<times> KAlarmApp" where
  \<comment> \<open>One pass of the body of the alarm loop, for the alarm \<open>alarm0\<close>. The deferral and
      \<^verbatim>\<open>repeatDT\<close>, values of KAlarm's \<^verbatim>\<open>DateTime\<close>, are compared by their instants.\<close>
  "scanAlarm env now alarm0 st =
     (case st of (sc0, s) \<Rightarrow>
        (let sc = (if deferred alarm0 \<and> repeatCount (sc_event sc0) \<noteq> 0
                      \<and> dt_valid (sc_repeatDT sc0)
                      \<and> dt_secs (al_dateTime alarm0) > dt_secs (sc_repeatDT sc0)
                   then sc0\<lparr>sc_alarmToExecute := KAAlarm0, sc_alarmToExecuteValid := False,
                            sc_updateCalAndDisplay := False\<rparr>
                   else sc0);
             secs0 = secsTo (al_dateTime alarm0) now
         in if secs0 < 0 \<and> (\<not> dt_clockTime (al_dateTime alarm0)
                              \<or> laterThanClockNow env (al_dateTime alarm0) now)
              then (sc, s)
            else if repeatAtLogin alarm0 \<and> secs0 < maxLateness env 1 then (sc, s)
            else if repeatAtLogin alarm0 \<and> valid (sc_alarmToExecute sc) then (sc, s)
            else
              (let alarm1 = (if repeatAtLogin alarm0 then setTime alarm0 (utcDateTime now)
                             else alarm0);
                   adjust = (if repeatCount (sc_event sc) \<noteq> 0 \<and> al_type alarm1 = MAIN_ALARM
                             then Some (previousOccurrence env (sc_event sc) (now + 1) True)
                             else None);
                   sc1 = (case adjust of Some (occ, dt) \<Rightarrow> sc\<lparr>sc_repeatDT := dt\<rparr> | None \<Rightarrow> sc);
                   alarm = (case adjust of
                              Some (occ, dt) \<Rightarrow> if snd occ then setTime alarm1 dt else alarm1
                            | None \<Rightarrow> alarm1);
                   secs = (case adjust of
                             Some (occ, dt) \<Rightarrow> if snd occ then secsTo dt now else secs0
                           | None \<Rightarrow> secs0)
               in if al_lateCancel alarm \<noteq> 0 then
                    (case lateCancelCheck env now (sc_event sc1) alarm secs of
                       (late, cancel) \<Rightarrow>
                         if cancel then
                           (case cancelAlarm env (setArchive (sc_event sc1)) (al_type alarm) False s of
                              (e, s1) \<Rightarrow>
                                (sc1\<lparr>sc_event := e, sc_updateCalAndDisplay := True\<rparr>, s1))
                         else if late then
                           (case rescheduleAlarm env now (sc_event sc1) alarm False s of
                              (e, s1) \<Rightarrow>
                                (sc1\<lparr>sc_event := e, sc_updateCalAndDisplay := True\<rparr>, s1))
                         else (selectAlarm alarm sc1, s))
                  else (selectAlarm alarm sc1, s))))"

function scanAlarms :: "Env \<Rightarrow> int \<Rightarrow> KAAlarm \<Rightarrow> Scan \<times> KAlarmApp \<Rightarrow> Scan \<times> KAlarmApp" where
  \<comment> \<open>\<^verbatim>\<open>for (alarm = ...; alarm.valid(); alarm = event.nextAlarm(alarm))\<close>\<close>
  "scanAlarms env now alarm st =
     (if \<not> valid alarm then st
      else (let st1 = scanAlarm env now alarm st
            in scanAlarms env now (nextAlarm (sc_event (fst st1)) alarm) st1))"
  by pat_completeness auto
termination
proof (relation "measure (\<lambda>(env, now, alarm, st).
          if valid alarm then Suc (length (laterTypes (al_type alarm))) else 0)")
  show "wf (measure (\<lambda>(env, now, alarm, st).
          if valid alarm then Suc (length (laterTypes (al_type alarm))) else 0))"
    by simp
next
  fix env :: Env and now :: int and alarm :: KAAlarm and st st1 :: "Scan \<times> KAlarmApp"
  assume v: "\<not> \<not> valid alarm"
  have later: "al_type (firstOfTypes ev ts) \<in> set ts \<or> al_type (firstOfTypes ev ts) = INVALID_ALARM"
    for ev ts
    by (induction ts) (auto simp: KAAlarm0_def alarmOfType_def split: option.splits
                             dest: find_Some_iff[THEN iffD1])
  have "(if valid (nextAlarm ev alarm)
         then Suc (length (laterTypes (al_type (nextAlarm ev alarm)))) else 0)
        < Suc (length (laterTypes (al_type alarm)))"
    for ev
    using v later[of ev "laterTypes (al_type alarm)"]
    by (cases "al_type alarm") (auto simp: valid_def nextAlarm_def laterTypes_def)
  with v show "((env, now, nextAlarm (sc_event (fst st1)) alarm, st1), (env, now, alarm, st))
        \<in> measure (\<lambda>(env, now, alarm, st).
            if valid alarm then Suc (length (laterTypes (al_type alarm))) else 0)"
    by simp
qed

declare scanAlarms.simps [simp del]

definition initScan :: "KAEvent \<Rightarrow> Scan" where
  "initScan event = \<lparr>sc_event = event, sc_repeatDT = DateTime0, sc_updateCalAndDisplay = False,
     sc_alarmToExecuteValid = False, sc_alarmToExecute = KAAlarm0\<rparr>"

definition triggerFirst :: "Env \<Rightarrow> int \<Rightarrow> EventFunc \<Rightarrow> KAEvent \<Rightarrow> KAlarmApp \<Rightarrow> KAEvent \<times> KAlarmApp" where
  \<comment> \<open>\<^verbatim>\<open>if (function == EVENT_TRIGGER) { ... }\<close> when no alarm was selected.\<close>
  "triggerFirst env now func event s =
     (if func = EVENT_TRIGGER then
        (let alarm = firstAlarm event
         in if valid alarm
              then (case execAlarm env now event alarm False (defaultAllowDefer env)
                           (defaultNoPreAction env) s of
                      (result, e, s1) \<Rightarrow> (e, s1))
            else (event, s))
      else (event, s))"

definition dispatch :: "Env \<Rightarrow> int \<Rightarrow> string \<Rightarrow> EventFunc \<Rightarrow> Scan \<times> KAlarmApp \<Rightarrow> KAlarmApp" where
  \<comment> \<open>\<^verbatim>\<open>handleEvent\<close> after the alarm loop.\<close>
  "dispatch env now ident func st =
     (case st of (sc, s) \<Rightarrow>
        if valid (sc_alarmToExecute sc) then
          (case execAlarm env now (sc_event sc) (sc_alarmToExecute sc) True
                  (\<not> repeatAtLogin (sc_alarmToExecute sc)) (defaultNoPreAction env) s of
             (result, e, s1) \<Rightarrow> s1)
        else
          (case triggerFirst env now func (sc_event sc) s of
             (event, s1) \<Rightarrow>
               if sc_updateCalAndDisplay sc
                 then s1\<lparr>calendar := kUpdateEvent env event (calendar s1)\<rparr>
               else if func \<noteq> EVENT_TRIGGER then emit [EventHandled ident] s1
               else s1))"

definition handleEvent :: "Env \<Rightarrow> int \<Rightarrow> string \<Rightarrow> EventFunc \<Rightarrow> KAlarmApp \<Rightarrow> bool \<times> KAlarmApp" where
  \<comment> \<open>\<open>map_of (calendar s) ident\<close> is \<^verbatim>\<open>AlarmCalendar::resources()->event(eventID)\<close>.\<close>
  "handleEvent env now ident func s =
     (case map_of (calendar s) ident of
        None \<Rightarrow> (False, emit [EventHandled ident] s)
      | Some event \<Rightarrow>
          (case func of
             EVENT_CANCEL \<Rightarrow> (True, s\<lparr>calendar := kDeleteEvent env event True (calendar s)\<rparr>)
           | _ \<Rightarrow> (True, dispatch env now ident func
                           (scanAlarms env now (firstAlarm event) (initScan event, s)))))"

subsection \<open>Action queue\<close>




definition dcopHandleEvent :: "Env \<Rightarrow> string \<Rightarrow> EventFunc \<Rightarrow> KAlarmApp \<Rightarrow> bool \<times> KAlarmApp" where
  "dcopHandleEvent env ident func s =
     (let s1 = s\<lparr>mDcopQueue := mDcopQueue s
                  @ [\<lparr>q_function = func, q_eventId = ident, q_event = defaultEvent env\<rparr>]\<rparr>
      in (True, if mInitialised s1 then emit [SingleShotProcessQueue] s1 else s1))"

definition processEntry :: "Env \<Rightarrow> int \<Rightarrow> DcopQEntry \<Rightarrow> KAlarmApp \<Rightarrow> KAlarmApp" where
  \<comment> \<open>The body of the queue loop, up to \<^verbatim>\<open>mDcopQueue.dequeue()\<close>.\<close>
  "processEntry env now entry s =
     (if q_eventId entry = [] then
        (case q_function entry of
           EVENT_TRIGGER \<Rightarrow>
             (case execAlarm env now (q_event entry) (firstAlarm (q_event entry)) False
                     (defaultAllowDefer env) (defaultNoPreAction env) s of
                (result, e, s1) \<Rightarrow> s1)
         | EVENT_HANDLE \<Rightarrow> s\<lparr>calendar := kAddEvent env (q_event entry) (calendar s)\<rparr>
         | EVENT_CANCEL \<Rightarrow> s)
      else snd (handleEvent env now (q_eventId entry) (q_function entry) s))"

partial_function (option) drainQueue :: "Env \<Rightarrow> int \<Rightarrow> KAlarmApp \<Rightarrow> KAlarmApp option" where
  \<comment> \<open>\<^verbatim>\<open>while (!mDcopQueue.isEmpty()) { ...; mDcopQueue.dequeue(); }\<close>\<close>
  "drainQueue env now s =
     (case mDcopQueue s of
        [] \<Rightarrow> Some s
      | entry # rest \<Rightarrow>
          drainQueue env now
            ((processEntry env now entry s)
               \<lparr>mDcopQueue := tl (mDcopQueue (processEntry env now entry s))\<rparr>))"

definition processQueue :: "Env \<Rightarrow> int \<Rightarrow> KAlarmApp \<Rightarrow> KAlarmApp option" where
  \<comment> \<open>\<open>None\<close>: the queue loop does not end. The \<^verbatim>\<open>exit()\<close> that \<^verbatim>\<open>quitIf\<close> calls is
      \<^verbatim>\<open>QCoreApplication::exit\<close>, which returns: the flag is cleared in every case.\<close>
  "processQueue env now s =
     (if mInitialised s \<and> \<not> mProcessingQueue s then
        (case drainQueue env now (emit [ResetDaemonIfQueued] (s\<lparr>mProcessingQueue := True\<rparr>)) of
           None \<Rightarrow> None
         | Some s1 \<Rightarrow>
             (let s2 = emit [PurgeIfQueued] s1;
                  s3 = (if mPendingQuit s2 then quitIf env (mPendingQuitCode s2) False s2 else s2)
              in Some (s3\<lparr>mProcessingQueue := False\<rparr>)))
      else Some s)"

subsection \<open>Completion of a command\<close>

fun findProcess :: "nat \<Rightarrow> ProcData list \<Rightarrow> nat option" where
  \<comment> \<open>The index of the first record whose process is \<open>proc\<close>.\<close>
  "findProcess proc [] = None"
| "findProcess proc (pd # pds) =
     (if pd_process pd = proc then Some 0 else map_option Suc (findProcess proc pds))"

definition commandExited ::
  "Env \<Rightarrow> int \<Rightarrow> nat \<Rightarrow> ProcData \<Rightarrow> bool \<Rightarrow> string \<Rightarrow> KAlarmApp \<Rightarrow> KAlarmApp option" where
  \<comment> \<open>The body of \<^verbatim>\<open>if (pd->process == proc)\<close> for the record \<open>pd\<close> at index \<open>i\<close>;
      \<open>None\<close> is the dereference of a null \<^verbatim>\<open>pd->alarm\<close>.\<close>
  "commandExited env now i pd normalExit errorMessage s =
     (let s1 = (case pd_logProcess pd of Some l \<Rightarrow> emit [LogStdinExit l] s | None \<Rightarrow> s);
          s2 = (if \<not> normalExit then
                  (if pd_messageBoxParent pd
                     then emit [DialogDelete,
                                MessageBoxError
                                  (errorMessage @ (if TEMP_FILE \<notin> pd_flags pd
                                                   then newline @ pd_command pd else []))] s1
                   else commandErrorMsg errorMessage (pd_command pd) (pd_event pd) (pd_alarm pd)
                          (pd_flags pd) s1)
                else s1)
      in if PRE_ACTION \<in> pd_flags pd then
           (case pd_alarm pd of
              None \<Rightarrow> None
            | Some alarm \<Rightarrow>
                (case execAlarm env now (pd_event pd) alarm (RESCHEDULE \<in> pd_flags pd)
                        (ALLOW_DEFER \<in> pd_flags pd) True s2 of
                   (result, e, s3) \<Rightarrow>
                     Some (deleteProcData pd
                             (s3\<lparr>mCommandProcesses := removeAt i (mCommandProcesses s3)\<rparr>))))
         else Some (deleteProcData pd (s2\<lparr>mCommandProcesses := removeAt i (mCommandProcesses s2)\<rparr>)))"

definition slotCommandExited ::
  "Env \<Rightarrow> int \<Rightarrow> nat \<Rightarrow> bool \<Rightarrow> string \<Rightarrow> KAlarmApp \<Rightarrow> KAlarmApp option" where
  \<comment> \<open>The process that exited is given by its handle, \<^verbatim>\<open>normalExit()\<close> and
      \<^verbatim>\<open>errorMessage()\<close>.\<close>
  "slotCommandExited env now proc normalExit errorMessage s =
     (case (case findProcess proc (mCommandProcesses s) of
              None \<Rightarrow> Some s
            | Some i \<Rightarrow> commandExited env now i (mCommandProcesses s ! i) normalExit errorMessage s) of
        None \<Rightarrow> None
      | Some s1 \<Rightarrow>
          Some (if mPendingQuit s1 \<and> mCommandProcesses s1 = []
                then quitIf env (mPendingQuitCode s1) False s1 else s1))"

subsection \<open>Observing a run\<close>

fun isExecAlarm :: "Effect \<Rightarrow> bool" where
  "isExecAlarm (ExecAlarm event alarm reschedule allowDefer noPreAction) = True"
| "isExecAlarm other = False"

definition execCalls :: "KAlarmApp \<Rightarrow> Effect list" where
  \<comment> \<open>The calls of \<^verbatim>\<open>execAlarm\<close> made so far, oldest first.\<close>
  "execCalls s = filter isExecAlarm (trace s)"

definition quiet :: "KAlarmApp \<Rightarrow> KAlarmApp \<Rightarrow> bool" where
  \<comment> \<open>From \<open>s\<close> to \<open>s'\<close> no call of \<^verbatim>\<open>execAlarm\<close> was made, requests were only added,
      and command records were only appended, each for a process created since; the queue
      and the flags are as before.\<close>
  "quiet s s' =
     (execCalls s' = execCalls s
      \<and> (\<exists>es. trace s' = trace s @ es)
      \<and> (\<exists>added. mCommandProcesses s' = mCommandProcesses s @ added
                   \<and> (\<forall>pd \<in> set added. nextProcess s \<le> pd_process pd))
      \<and> nextProcess s \<le> nextProcess s'
      \<and> mDcopQueue s' = mDcopQueue s
      \<and> mInitialised s' = mInitialised s
      \<and> mProcessingQueue s' = mProcessingQueue s
      \<and> exited s' = exited s)"

definition raisesWindow :: "KAEvent \<Rightarrow> KAAlarm \<Rightarrow> KAlarmApp \<Rightarrow> bool" where
  \<comment> \<open>\<^verbatim>\<open>execAlarm\<close> for this event and alarm reaches \<^verbatim>\<open>win->repeat(alarm)\<close>: the alarm
      is a message or a file, the event is enabled and its open window is kept.\<close>
  "raisesWindow event alarm s =
     ((al_action alarm = MESSAGE \<or> al_action alarm = FILE) \<and> enabled event
      \<and> \<not> freshWindow (findEvent s (eventID event)) alarm)"

subsection \<open>A reference instance of the collaborators\<close>

text \<open>
  A calendar store kept as an association list, and an event model without recurrences:
  the only occurrence of an event is the time of its main alarm.
\<close>

definition archivedID :: "string \<Rightarrow> string" where
  "archivedID ident = ''exp-'' @ ident"

definition noRecurrence :: "KAEvent \<Rightarrow> int \<Rightarrow> OccurType \<times> KAEvent" where
  \<comment> \<open>Advancing past \<open>t\<close>: the only occurrence is still to come, or there is none left.\<close>
  "noRecurrence ev t =
     (case alarmOfType ev MAIN_ALARM of
        Some a \<Rightarrow> if t < dt_secs (al_dateTime a) then ((FIRST_OR_ONLY_OCCURRENCE, False), ev)
                  else ((NO_OCCURRENCE, False), ev)
      | None \<Rightarrow> ((NO_OCCURRENCE, False), ev))"

definition onlyOccurrence :: "KAEvent \<Rightarrow> int \<Rightarrow> bool \<Rightarrow> OccurType \<times> DateTime" where
  "onlyOccurrence ev t includeRepetitions =
     (case alarmOfType ev MAIN_ALARM of
        Some a \<Rightarrow> if dt_secs (al_dateTime a) < t
                  then ((FIRST_OR_ONLY_OCCURRENCE, False), al_dateTime a)
                  else ((NO_OCCURRENCE, False), DateTime0)
      | None \<Rightarrow> ((NO_OCCURRENCE, False), DateTime0))"

definition storeUpdate :: "KAEvent \<Rightarrow> Calendar \<Rightarrow> Calendar" where
  "storeUpdate ev cal = map (\<lambda>(k, e). if k = eventID ev then (k, ev) else (k, e)) cal"

definition storeDelete :: "KAEvent \<Rightarrow> bool \<Rightarrow> Calendar \<Rightarrow> Calendar" where
  "storeDelete ev archive cal = filter (\<lambda>(k, e). k \<noteq> eventID ev) cal"

definition storeArchive :: "KAEvent \<Rightarrow> Calendar \<Rightarrow> string \<times> Calendar" where
  "storeArchive ev cal =
     (archivedID (eventID ev),
      cal @ [(archivedID (eventID ev), ev\<lparr>eventID := archivedID (eventID ev)\<rparr>)])"

definition messageEvent :: "string \<Rightarrow> KAAlarm list \<Rightarrow> KAEvent" where
  \<comment> \<open>An enabled event without recurrence or repetition, showing a message.\<close>
  "messageEvent ident als = \<lparr>eventID = ident, alarms = als, repeatCount = 0, recurs = False,
     enabled = True, toBeArchived = False, displaying = False, cancelledDeferral = False,
     updated = False, preAction = [], postAction = [], commandXterm = False,
     commandScript = False, cleanText = ''Tea time'', logFile = []\<rparr>"

definition messageAlarm :: "AlarmType \<Rightarrow> int \<Rightarrow> int \<Rightarrow> KAAlarm" where
  \<comment> \<open>A timed message alarm due at \<open>t\<close> with the late-cancel threshold \<open>lc\<close>.\<close>
  "messageAlarm ty t lc = \<lparr>al_type = ty, al_dateTime = utcDateTime t, al_lateCancel = lc,
     al_action = MESSAGE\<rparr>"

definition simpleEnv :: Env where
  "simpleEnv = \<lparr>maxTimeSinceCheck = 60,
     laterThanClockNow = (\<lambda>dt now. now < dt_secs dt),
     previousOccurrence = onlyOccurrence,
     setNextOccurrence = noRecurrence,
     setNextOccurrence2 = (\<lambda>ev now includeRepetitions. noRecurrence ev now),
     mainEndRepeatTime = (\<lambda>ev. 0),
     kAddEvent = (\<lambda>ev cal. cal @ [(eventID ev, ev)]),
     kUpdateEvent = storeUpdate,
     kDeleteEvent = storeDelete,
     kAddArchivedEvent = storeArchive,
     authorised = True,
     cmdXTermCommand = ''xterm -e %c'',
     programName = ''kalarm'',
     shellQuote = (\<lambda>c. c),
     formatLocale = (\<lambda>dt. []),
     tempFileName = (\<lambda>c insertShell. ''/tmp/kalarm1''),
     processStarts = (\<lambda>c. True),
     startErrorMessage = (\<lambda>c. ''Failed to execute command''),
     mailSend = (\<lambda>ev allowDisable. (True, [])),
     mainWindowsRemain = False,
     trayIconHoused = False,
     defaultAllowDefer = True,
     defaultNoPreAction = False,
     defaultEvent = messageEvent [] [],
     newEvent = (\<lambda>dt args. messageEvent ''new''
                   [\<lparr>al_type = MAIN_ALARM, al_dateTime = dt, al_lateCancel = sa_lateCancel args,
                     al_action = sa_action args\<rparr>])\<rparr>"

definition idleApp :: "Calendar \<Rightarrow> KAlarmApp" where
  \<comment> \<open>The initialised application at rest, with the given calendar.\<close>
  "idleApp cal = \<lparr>mInitialised = True, mProcessingQueue = False, mPendingQuit = False,
     mPendingQuitCode = 0, mActiveCount = 0, mDcopQueue = [], mCommandProcesses = [],
     calendar = cal, windows = [], nextProcess = 0, trace = [], exited = None\<rparr>"

definition busyApp :: KAlarmApp where
  \<comment> \<open>A drain is in progress and one request by ID is pending.\<close>
  "busyApp = (idleApp [])\<lparr>mProcessingQueue := True,
     mDcopQueue := [\<lparr>q_function = EVENT_HANDLE, q_eventId = ''ev1'',
                     q_event = messageEvent [] []\<rparr>]\<rparr>"


definition lateEvent :: "int \<Rightarrow> KAEvent" where
  \<comment> \<open>An event with one main alarm, due at the instant 400, with the given threshold.\<close>
  "lateEvent lc = messageEvent ''ev1'' [messageAlarm MAIN_ALARM 400 lc]"

definition futureEvent :: KAEvent where
  \<comment> \<open>An event whose only alarm, a main alarm, is due at the instant 2000.\<close>
  "futureEvent = messageEvent ''ev1'' [messageAlarm MAIN_ALARM 2000 0]"

definition preActionRecord :: ProcData where
  \<comment> \<open>The record of a pre-alarm command of the event \<open>lateEvent 0\<close>, run from a script file.\<close>
  "preActionRecord = \<lparr>pd_process = 7, pd_command = ''/tmp/kalarm7'', pd_logProcess = None,
     pd_event = lateEvent 0, pd_alarm = Some (messageAlarm MAIN_ALARM 400 0),
     pd_messageBoxParent = False, pd_flags = {PRE_ACTION, RESCHEDULE, ALLOW_DEFER},
     pd_tempFiles = [''/tmp/kalarm7'']\<rparr>"

definition otherRecord :: ProcData where
  \<comment> \<open>The record of the command of another event, started earlier.\<close>
  "otherRecord = \<lparr>pd_process = 3, pd_command = ''make tea'', pd_logProcess = None,
     pd_event = messageEvent ''ev2'' [], pd_alarm = Some (messageAlarm MAIN_ALARM 300 0),
     pd_messageBoxParent = False, pd_flags = {}, pd_tempFiles = []\<rparr>"

definition commandApp :: KAlarmApp where
  \<comment> \<open>The application at rest while two commands run; the pre-alarm command of
      \<open>preActionRecord\<close> was started last.\<close>
  "commandApp = (idleApp [(''ev1'', lateEvent 0)])\<lparr>
     mCommandProcesses := [otherRecord, preActionRecord], nextProcess := 8\<rparr>"

definition deferredEvent :: KAEvent where
  \<comment> \<open>A main alarm due at the instant 2000 with a deferral to the instant 1500.\<close>
  "deferredEvent = messageEvent ''ev1''
     [messageAlarm MAIN_ALARM 2000 0, messageAlarm DEFERRED_ALARM 1500 0]"

definition raisedApp :: KAlarmApp where
  \<comment> \<open>The application at rest with \<open>deferredEvent\<close> in the calendar and a window of the
      event open, which has a Defer button.\<close>
  "raisedApp = (idleApp [(''ev1'', deferredEvent)])\<lparr>
     windows := [\<lparr>win_eventId = ''ev1'', win_hasDefer = True, win_alarmType = MAIN_ALARM\<rparr>]\<rparr>"


definition farFuture :: int where
  \<comment> \<open>An instant more than \<open>INT_MAX\<close> seconds after the instant 400.\<close>
  "farFuture = 3000000000"

definition isArchivedID :: "string \<Rightarrow> bool" where
  "isArchivedID ident = (take 4 ident = ''exp-'')"

definition liveEventsHaveAlarms :: "Calendar \<Rightarrow> bool" where
  \<comment> \<open>Every event of the calendar that is not an archived copy owns an alarm.\<close>
  "liveEventsHaveAlarms cal = list_all (\<lambda>(k, e). isArchivedID k \<or> alarms e \<noteq> []) cal"

fun execOfType :: "AlarmType \<Rightarrow> Effect \<Rightarrow> bool" where
  \<comment> \<open>The request is a call of \<^verbatim>\<open>execAlarm\<close> for an alarm of the given type.\<close>
  "execOfType t (ExecAlarm event alarm reschedule allowDefer noPreAction) = (al_type alarm = t)"
| "execOfType t other = False"

definition loginEvent :: KAEvent where
  \<comment> \<open>An event left with its at-login alarm only, stamped at the instant 990.\<close>
  "loginEvent = messageEvent ''ev1'' [messageAlarm AT_LOGIN_ALARM 990 0]"

definition mainAndLoginEvent :: KAEvent where
  \<comment> \<open>A due main alarm that is never cancelled, and an at-login alarm stamped at 990.\<close>
  "mainAndLoginEvent = messageEvent ''ev1''
     [messageAlarm MAIN_ALARM 400 0, messageAlarm AT_LOGIN_ALARM 990 0]"

section \<open>Properties\<close>

subsection \<open>Auxiliary facts\<close>

lemma int32_id: "INT_MIN \<le> x \<Longrightarrow> x \<le> INT_MAX \<Longrightarrow> int32 x = x"
  by (simp add: int32_def INT_MIN_def INT_MAX_def)

lemma scanAlarms_invalid: "\<not> valid alarm \<Longrightarrow> scanAlarms env now alarm st = st"
  by (subst scanAlarms.simps) simp

lemma scanAlarms_step:
  "valid alarm \<Longrightarrow> scanAlarms env now alarm st =
     scanAlarms env now (nextAlarm (sc_event (fst (scanAlarm env now alarm st))) alarm)
       (scanAlarm env now alarm st)"
  by (subst scanAlarms.simps) (simp add: Let_def)

lemma firstOfTypes_none:
  "\<forall>a \<in> set (alarms ev). al_type a \<notin> set ts \<Longrightarrow> firstOfTypes ev ts = KAAlarm0"
proof (induction ts)
  case Nil
  then show ?case by simp
next
  case (Cons t ts)
  then have "alarmOfType ev t = None"
    by (simp add: alarmOfType_def find_None_iff)
  with Cons show ?case by simp
qed

lemma firstAlarm_main:
  "alarms ev = a # as \<Longrightarrow> al_type a = MAIN_ALARM \<Longrightarrow> firstAlarm ev = a"
  by (simp add: firstAlarm_def alarmOfType_def)

lemma valid_KAAlarm0: "\<not> valid KAAlarm0"
  by (simp add: valid_def KAAlarm0_def)

lemma emit_fields [simp]:
  "mCommandProcesses (emit es s) = mCommandProcesses s"
  "calendar (emit es s) = calendar s"
  "windows (emit es s) = windows s"
  "mDcopQueue (emit es s) = mDcopQueue s"
  "nextProcess (emit es s) = nextProcess s"
  "trace (emit es s) = trace s @ es"
  by (simp_all add: emit_def)


lemma quiet_refl: "quiet s s"
  by (simp add: quiet_def)

lemma quiet_emit:
  "quiet s0 s \<Longrightarrow> \<forall>e \<in> set es. \<not> isExecAlarm e \<Longrightarrow> quiet s0 (emit es s)"
  by (auto simp: quiet_def emit_def execCalls_def filter_empty_conv)

lemma quiet_calendar: "quiet s0 s \<Longrightarrow> quiet s0 (s\<lparr>calendar := c\<rparr>)"
  by (simp add: quiet_def execCalls_def)

lemma quiet_windows: "quiet s0 s \<Longrightarrow> quiet s0 (s\<lparr>windows := w\<rparr>)"
  by (simp add: quiet_def execCalls_def)

lemma quiet_append:
  "quiet s0 s \<Longrightarrow> nextProcess s \<le> n \<Longrightarrow> \<forall>pd \<in> set pds. nextProcess s \<le> pd_process pd \<Longrightarrow>
   quiet s0 (s\<lparr>mCommandProcesses := mCommandProcesses s @ pds, nextProcess := n\<rparr>)"
  by (fastforce simp: quiet_def execCalls_def)

lemma quiet_processes:
  "quiet s0 s \<Longrightarrow> quiet s0 s1 \<Longrightarrow> quiet s0 (s\<lparr>mCommandProcesses := mCommandProcesses s1\<rparr>)"
  by (simp add: quiet_def execCalls_def)

lemma removeAt_last: "removeAt (length xs) (xs @ [x]) = xs"
  by (simp add: removeAt_def)

lemma cancelAlarm_quiet: "quiet s0 s \<Longrightarrow> quiet s0 (snd (cancelAlarm env ev t u s))"
  by (simp add: cancelAlarm_def Let_def case_prod_beta quiet_calendar)

lemma advanceRecurrence_quiet:
  "quiet s0 s \<Longrightarrow> quiet s0 (fst (snd (advanceRecurrence env now ev al u s)))"
  by (simp add: advanceRecurrence_def Let_def case_prod_beta cancelAlarm_quiet)

lemma rescheduleAlarm_quiet: "quiet s0 s \<Longrightarrow> quiet s0 (snd (rescheduleAlarm env now ev al u s))"
  by (simp add: rescheduleAlarm_def Let_def case_prod_beta quiet_calendar quiet_emit
      advanceRecurrence_quiet)

lemma createTempScriptFile_quiet:
  "quiet s0 s \<Longrightarrow> quiet s0 (snd (createTempScriptFile env c i ev al s))"
  by (simp add: createTempScriptFile_def Let_def quiet_emit)

lemma startProcess_quiet:
  assumes q: "quiet s0 s"
  shows "quiet s0 (snd (startProcess env cmd ao tmp c ev al fl s))"
proof -
  have q1: "quiet s0 (emit [LogStart n x, LogWrite n y] s)" for n x y
    using q by (simp add: quiet_emit)
  show ?thesis
    using q q1
    by (simp add: startProcess_def Let_def commandErrorMsg_def deleteProcData_def
        removeAt_last quiet_emit quiet_append quiet_processes)
qed

lemma doShellCommand_quiet:
  "quiet s0 s \<Longrightarrow> quiet s0 (snd (doShellCommand env c ev al fl s))"
  by (simp add: doShellCommand_def Let_def case_prod_beta startProcess_quiet
      createTempScriptFile_quiet)

lemma doShellCommand_quietD:
  "doShellCommand env c ev al fl s = (res, s1) \<Longrightarrow> quiet s0 s \<Longrightarrow> quiet s0 s1"
  using doShellCommand_quiet [of s0 s env c ev al fl] by simp

lemma deleteWin_quiet: "quiet s0 s \<Longrightarrow> quiet s0 (deleteWin w s)"
  by (simp add: deleteWin_def quiet_emit quiet_windows split: option.splits)

lemma winRepeat_quiet: "quiet s0 s \<Longrightarrow> quiet s0 (winRepeat env now w al s)"
  by (simp add: winRepeat_def Let_def quiet_emit rescheduleAlarm_quiet split: option.splits)

lemma showAlarm_quiet: "quiet s0 s \<Longrightarrow> quiet s0 (showAlarm env now ev al r d w s)"
  by (simp add: showAlarm_def Let_def quiet_emit quiet_windows deleteWin_quiet winRepeat_quiet
      split: option.splits)

lemma execDisplay_quiet:
  assumes q: "quiet s0 s"
  shows "quiet s0 (snd (execDisplay env now ev al r d n s))"
proof (cases "findEvent s (eventID ev) = None \<and> \<not> n \<and> preAction ev \<noteq> [] \<and> authorised env")
  case False
  then show ?thesis
    using q by (auto simp: execDisplay_def Let_def showAlarm_quiet)
next
  case True
  define fl where "fl = (if r then {RESCHEDULE} else {}) \<union> (if d then {ALLOW_DEFER} else {})
                         \<union> {PRE_ACTION}"
  obtain res s1 where run: "doShellCommand env (preAction ev) ev al fl s = (res, s1)"
    by (cases "doShellCommand env (preAction ev) ev al fl s")
  have q1: "quiet s0 s1"
    using run q by (rule doShellCommand_quietD)
  have "snd (execDisplay env now ev al r d n s)
          = (case res of Some proc \<Rightarrow> s1 | None \<Rightarrow> showAlarm env now ev al r d None s1)"
    using True run unfolding execDisplay_def Let_def fl_def
    by (simp split: option.splits)
  then show ?thesis
    using q1 by (simp add: showAlarm_quiet split: option.splits)
qed

lemma execCommand_quiet: "quiet s0 s \<Longrightarrow> quiet s0 (snd (execCommand env ev al s))"
  by (simp add: execCommand_def Let_def case_prod_beta procResult_def quiet_emit
      createTempScriptFile_quiet doShellCommand_quiet split: option.splits)

lemma execEmail_quiet: "quiet s0 s \<Longrightarrow> quiet s0 (snd (execEmail env ev al r d s))"
  by (simp add: execEmail_def Let_def case_prod_beta quiet_emit)

lemma execAlarm_quiet:
  "quiet (emit [ExecAlarm ev al r d n] s) (snd (snd (execAlarm env now ev al r d n s)))"
  by (simp add: execAlarm_def Let_def case_prod_beta quiet_refl rescheduleAlarm_quiet
      execDisplay_quiet execCommand_quiet execEmail_quiet)

lemma quiet_execCalls: "quiet s s' \<Longrightarrow> execCalls s' = execCalls s"
  by (simp add: quiet_def)

lemma execCalls_emit_exec:
  "execCalls (emit [ExecAlarm ev al r d n] s) = execCalls s @ [ExecAlarm ev al r d n]"
  by (simp add: execCalls_def)

lemma execAlarm_execCalls:
  "execCalls (snd (snd (execAlarm env now ev al r d n s))) = execCalls s @ [ExecAlarm ev al r d n]"
  using execAlarm_quiet [of ev al r d n s env now, THEN quiet_execCalls]
  by (simp add: execCalls_emit_exec)

lemma createTempScriptFile_calendar:
  "calendar (snd (createTempScriptFile env c i ev al s)) = calendar s"
  by (simp add: createTempScriptFile_def Let_def)

lemma startProcess_calendar:
  "calendar (snd (startProcess env cmd ao tmp c ev al fl s)) = calendar s"
  by (simp add: startProcess_def Let_def commandErrorMsg_def deleteProcData_def)

lemma doShellCommand_calendar:
  "calendar (snd (doShellCommand env c ev al fl s)) = calendar s"
  by (simp add: doShellCommand_def Let_def case_prod_beta startProcess_calendar
      createTempScriptFile_calendar)

lemma deleteWin_calendar: "calendar (deleteWin w s) = calendar s"
  by (simp add: deleteWin_def split: option.splits)

lemma showAlarm_calendar:
  "\<not> enabled ev \<or> freshWindow w al \<Longrightarrow> calendar (showAlarm env now ev al r d w s) = calendar s"
  by (auto simp: showAlarm_def Let_def deleteWin_calendar split: option.splits)

lemma execDisplay_calendar:
  assumes fresh: "\<not> enabled ev \<or> freshWindow (findEvent s (eventID ev)) al"
  shows "calendar (snd (execDisplay env now ev al r d n s)) = calendar s"
proof (cases "findEvent s (eventID ev) = None \<and> \<not> n \<and> preAction ev \<noteq> [] \<and> authorised env")
  case False
  then show ?thesis
    using fresh by (auto simp: execDisplay_def Let_def showAlarm_calendar)
next
  case True
  define fl where "fl = (if r then {RESCHEDULE} else {}) \<union> (if d then {ALLOW_DEFER} else {})
                         \<union> {PRE_ACTION}"
  obtain res s1 where run: "doShellCommand env (preAction ev) ev al fl s = (res, s1)"
    by (cases "doShellCommand env (preAction ev) ev al fl s")
  have c1: "calendar s1 = calendar s"
    using doShellCommand_calendar [of env "preAction ev" ev al fl s] run by simp
  have "snd (execDisplay env now ev al r d n s)
          = (case res of Some proc \<Rightarrow> s1 | None \<Rightarrow> showAlarm env now ev al r d None s1)"
    using True run unfolding execDisplay_def Let_def fl_def
    by (simp split: option.splits)
  then show ?thesis
    using c1 by (simp add: showAlarm_calendar freshWindow_def split: option.splits)
qed

lemma execCommand_calendar: "calendar (snd (execCommand env ev al s)) = calendar s"
  by (simp add: execCommand_def Let_def case_prod_beta procResult_def
      createTempScriptFile_calendar doShellCommand_calendar split: option.splits)

lemma execEmail_calendar: "calendar (snd (execEmail env ev al r d s)) = calendar s"
  by (simp add: execEmail_def Let_def case_prod_beta)

lemma execAlarm_event:
  "fst (snd (execAlarm env now ev al False d n s)) = (if enabled ev then setArchive ev else ev)"
  by (simp add: execAlarm_def Let_def case_prod_beta)

lemma raisesWindow_emit: "raisesWindow ev al (emit es s) = raisesWindow ev al s"
  by (simp add: raisesWindow_def findEvent_def)

lemma execAlarm_no_reschedule:
  assumes "\<not> raisesWindow ev al s"
  shows "calendar (snd (snd (execAlarm env now ev al False d n s))) = calendar s"
proof -
  let ?s = "emit [ExecAlarm ev al False d n] s"
  have "al_action al = MESSAGE \<or> al_action al = FILE \<Longrightarrow> enabled ev \<Longrightarrow>
        freshWindow (findEvent ?s (eventID (setArchive ev))) al"
    using assms by (simp add: raisesWindow_def findEvent_def setArchive_def)
  then have "al_action al = MESSAGE \<or> al_action al = FILE \<Longrightarrow> enabled ev \<Longrightarrow>
        calendar (snd (execDisplay env now (setArchive ev) al False d n ?s)) = calendar s"
    by (simp add: execDisplay_calendar)
  then show ?thesis
    by (auto simp: execAlarm_def Let_def case_prod_beta execCommand_calendar execEmail_calendar)
qed

lemma scanAlarm_quiet: "quiet s0 (snd st) \<Longrightarrow> quiet s0 (snd (scanAlarm env now alarm st))"
  by (cases st)
     (simp add: scanAlarm_def Let_def case_prod_beta cancelAlarm_quiet rescheduleAlarm_quiet
        split: option.splits)

lemma scanAlarms_quiet: "quiet s0 (snd st) \<Longrightarrow> quiet s0 (snd (scanAlarms env now alarm st))"
proof (induction env now alarm st rule: scanAlarms.induct)
  case (1 env now alarm st)
  show ?case
  proof (cases "valid alarm")
    case False
    then show ?thesis using "1.prems" by (simp add: scanAlarms_invalid)
  next
    case True
    have "quiet s0 (snd (scanAlarm env now alarm st))"
      using "1.prems" by (rule scanAlarm_quiet)
    then have "quiet s0 (snd (scanAlarms env now
                 (nextAlarm (sc_event (fst (scanAlarm env now alarm st))) alarm)
                 (scanAlarm env now alarm st)))"
      using "1.IH" True by simp
    then show ?thesis using True by (simp add: scanAlarms_step)
  qed
qed

lemma secsTo_exact:
  "dt_secs dt \<le> now \<Longrightarrow> now - dt_secs dt \<le> INT_MAX \<Longrightarrow> secsTo dt now = now - dt_secs dt"
  unfolding secsTo_def by (rule int32_id) (simp_all add: INT_MIN_def)

lemma lateCancel_scan:
  assumes single: "alarms event = [alarm]" and main: "al_type alarm = MAIN_ALARM"
    and once: "repeatCount event = 0" "\<not> recurs event"
    and timed: "\<not> dt_dateOnly (al_dateTime alarm)"
    and lc: "1 \<le> al_lateCancel alarm"
    and past: "dt_secs (al_dateTime alarm) \<le> now"
    and range: "now - dt_secs (al_dateTime alarm) \<le> INT_MAX"
    and late: "maxLateness env (al_lateCancel alarm) < now - dt_secs (al_dateTime alarm)"
    and occ: "previousOccurrence env event now True
                = ((FIRST_OR_ONLY_OCCURRENCE, False), al_dateTime alarm)"
  shows "scanAlarms env now (firstAlarm event) (initScan event, s) =
     (let marked = event\<lparr>toBeArchived := True, cancelledDeferral := False\<rparr>;
          gone = marked\<lparr>alarms := []\<rparr>;
          cal = (if displaying event then calendar s
                 else snd (kAddArchivedEvent env marked (calendar s)))
      in ((initScan event)\<lparr>sc_event := gone, sc_updateCalAndDisplay := True\<rparr>,
          s\<lparr>calendar := kDeleteEvent env gone False cal\<rparr>))"
proof -
  let ?marked = "event\<lparr>toBeArchived := True, cancelledDeferral := False\<rparr>"
  let ?gone = "?marked\<lparr>alarms := []\<rparr>"
  let ?cal = "if displaying event then calendar s
              else snd (kAddArchivedEvent env ?marked (calendar s))"
  have secs: "secsTo (al_dateTime alarm) now = now - dt_secs (al_dateTime alarm)"
    using past range by (rule secsTo_exact)
  have due: "\<not> secsTo (al_dateTime alarm) now < 0"
    using secs past by simp
  have over: "maxLateness env (al_lateCancel alarm) < secsTo (al_dateTime alarm) now"
    using secs late by simp
  have check: "lateCancelCheck env now event alarm (secsTo (al_dateTime alarm) now) = (False, True)"
    using timed over occ once by (simp add: lateCancelCheck_def lateOrCancel_def Let_def)
  have cancel: "cancelAlarm env (setArchive event) MAIN_ALARM False s
                  = (?gone, s\<lparr>calendar := kDeleteEvent env ?gone False ?cal\<rparr>)"
    using single main
    by (simp add: cancelAlarm_def setArchive_def cancelCancelledDeferral_def setEventID_def
        removeExpiredAlarm_def alarmCount_def Let_def case_prod_beta)
  have body: "scanAlarm env now alarm (initScan event, s) =
      ((initScan event)\<lparr>sc_event := ?gone, sc_updateCalAndDisplay := True\<rparr>,
       s\<lparr>calendar := kDeleteEvent env ?gone False ?cal\<rparr>)"
    using main once lc due check cancel
    by (simp add: scanAlarm_def initScan_def deferred_def repeatAtLogin_def Let_def)
  have nxt: "nextAlarm ?gone alarm = KAAlarm0"
    by (simp add: nextAlarm_def firstOfTypes_none)
  show ?thesis
    using single main
    by (simp add: Let_def firstAlarm_main scanAlarms_step [of alarm] valid_def body nxt
        scanAlarms_invalid valid_KAAlarm0 [unfolded valid_def])
qed

lemma initScan_event: "sc_event (initScan event) = event"
  by (simp add: initScan_def)

lemma notDue_scan:
  "scanAlarms simpleEnv 1000 (firstAlarm futureEvent) (initScan futureEvent, s)
     = (initScan futureEvent, s)"
proof -
  have body: "scanAlarm simpleEnv 1000 (messageAlarm MAIN_ALARM 2000 0) (initScan futureEvent, s)
      = (initScan futureEvent, s)"
    by (simp add: scanAlarm_def initScan_def deferred_def messageAlarm_def utcDateTime_def
        secsTo_def int32_def futureEvent_def messageEvent_def Let_def)
  have nxt: "nextAlarm futureEvent (messageAlarm MAIN_ALARM 2000 0) = KAAlarm0"
    unfolding nextAlarm_def
    by (rule firstOfTypes_none)
       (simp add: laterTypes_def futureEvent_def messageEvent_def messageAlarm_def)
  have first: "firstAlarm futureEvent = messageAlarm MAIN_ALARM 2000 0"
    by (simp add: firstAlarm_main futureEvent_def messageEvent_def messageAlarm_def)
  have v: "valid (messageAlarm MAIN_ALARM 2000 0)"
    by (simp add: valid_def messageAlarm_def)
  show ?thesis
    by (simp add: first scanAlarms_step [OF v] body nxt initScan_event scanAlarms_invalid
        valid_KAAlarm0)
qed

lemma findProcess_less: "findProcess proc pds = Some i \<Longrightarrow> i < length pds"
  by (induction pds arbitrary: i) (auto split: if_splits)

lemma removeAt_append: "i < length xs \<Longrightarrow> removeAt i (xs @ ys) = removeAt i xs @ ys"
  by (simp add: removeAt_def)

lemma quitIf_frame:
  "trace (quitIf env code False s) = trace s
   \<and> mCommandProcesses (quitIf env code False s) = mCommandProcesses s
   \<and> calendar (quitIf env code False s) = calendar s"
  by (simp add: quitIf_def Let_def)

lemma quiet_trace: "quiet s s' \<Longrightarrow> \<exists>es. trace s' = trace s @ es"
  by (simp add: quiet_def)

lemma quiet_added:
  "quiet s s' \<Longrightarrow> \<exists>added. mCommandProcesses s' = mCommandProcesses s @ added
                            \<and> (\<forall>pd \<in> set added. nextProcess s \<le> pd_process pd)"
  by (simp add: quiet_def)

lemma quiet_next: "quiet s s' \<Longrightarrow> nextProcess s \<le> nextProcess s'"
  by (simp add: quiet_def)

lemma findProcess_None_iff: "findProcess proc pds = None \<longleftrightarrow> proc \<notin> pd_process ` set pds"
  by (induction pds) auto

lemma findProcess_nth: "findProcess proc pds = Some i \<Longrightarrow> pd_process (pds ! i) = proc"
  by (induction pds arbitrary: i) (auto split: if_splits)

lemma findProcess_removed:
  assumes idx: "findProcess proc pds = Some i"
    and dist: "distinct (map pd_process pds)"
    and old: "\<forall>pd \<in> set pds. pd_process pd < n"
    and new: "\<forall>pd \<in> set added. n \<le> pd_process pd"
  shows "findProcess proc (take i pds @ drop (Suc i) pds @ added) = None"
proof -
  have i: "i < length pds"
    using idx by (rule findProcess_less)
  have at: "pd_process (pds ! i) = proc"
    using idx by (rule findProcess_nth)
  have split: "pds = take i pds @ pds ! i # drop (Suc i) pds"
    using i by (rule id_take_nth_drop)
  have "distinct (map pd_process (take i pds @ pds ! i # drop (Suc i) pds))"
    using dist split by simp
  then have rest: "proc \<notin> pd_process ` set (take i pds)"
    "proc \<notin> pd_process ` set (drop (Suc i) pds)"
    using at by auto
  have "pds ! i \<in> set pds"
    using i by simp
  then have "proc < n"
    using old at by auto
  then have "proc \<notin> pd_process ` set added"
    using new by auto
  with rest show ?thesis
    by (simp add: findProcess_None_iff image_Un)
qed

lemma commandExited_preAction:
  assumes i: "i < length (mCommandProcesses s)"
    and pre: "PRE_ACTION \<in> pd_flags pd"
    and al: "pd_alarm pd = Some alarm"
  shows "\<exists>s' added. commandExited env now i pd normalExit errorMessage s = Some s'
     \<and> execCalls s' = execCalls s @ [ExecAlarm (pd_event pd) alarm (RESCHEDULE \<in> pd_flags pd)
                                       (ALLOW_DEFER \<in> pd_flags pd) True]
     \<and> mCommandProcesses s'
          = take i (mCommandProcesses s) @ drop (Suc i) (mCommandProcesses s) @ added
     \<and> (\<forall>pd' \<in> set added. nextProcess s \<le> pd_process pd')
     \<and> (\<exists>es. trace s' = trace s @ es @ map FileRemove (pd_tempFiles pd))"
proof -
  define s1 where "s1 = (case pd_logProcess pd of Some l \<Rightarrow> emit [LogStdinExit l] s | None \<Rightarrow> s)"
  define s2 where "s2 =
    (if \<not> normalExit then
       (if pd_messageBoxParent pd
          then emit [DialogDelete,
                     MessageBoxError
                       (errorMessage @ (if TEMP_FILE \<notin> pd_flags pd
                                        then newline @ pd_command pd else []))] s1
        else commandErrorMsg errorMessage (pd_command pd) (pd_event pd) (pd_alarm pd)
               (pd_flags pd) s1)
     else s1)"
  let ?call = "ExecAlarm (pd_event pd) alarm (RESCHEDULE \<in> pd_flags pd)
                 (ALLOW_DEFER \<in> pd_flags pd) True"
  obtain result e s3 where run:
    "execAlarm env now (pd_event pd) alarm (RESCHEDULE \<in> pd_flags pd)
       (ALLOW_DEFER \<in> pd_flags pd) True s2 = (result, e, s3)"
    by (cases "execAlarm env now (pd_event pd) alarm (RESCHEDULE \<in> pd_flags pd)
                 (ALLOW_DEFER \<in> pd_flags pd) True s2") auto
  define s4 where "s4 = deleteProcData pd (s3\<lparr>mCommandProcesses := removeAt i (mCommandProcesses s3)\<rparr>)"
  have q1: "quiet s s1"
    by (simp add: s1_def quiet_refl quiet_emit split: option.splits)
  have q2: "quiet s s2"
    using q1 by (simp add: s2_def commandErrorMsg_def quiet_emit)
  have q3: "quiet (emit [?call] s2) s3"
    using execAlarm_quiet [of "pd_event pd" alarm "RESCHEDULE \<in> pd_flags pd"
        "ALLOW_DEFER \<in> pd_flags pd" True s2 env now] run
    by simp
  have res: "commandExited env now i pd normalExit errorMessage s = Some s4"
    using pre al run
    by (simp add: commandExited_def Let_def s1_def [symmetric] s2_def [symmetric] s4_def)
  have calls: "execCalls s4 = execCalls s @ [?call]"
    using quiet_execCalls [OF q3] quiet_execCalls [OF q2]
    by (simp add: s4_def deleteProcData_def execCalls_def emit_def filter_empty_conv)
  have same: "mCommandProcesses s2 = mCommandProcesses s" "nextProcess s2 = nextProcess s"
    by (simp_all add: s2_def s1_def commandErrorMsg_def split: option.splits)
  obtain a3 where a3: "mCommandProcesses s3 = mCommandProcesses s2 @ a3"
    and fresh: "\<forall>pd' \<in> set a3. nextProcess s2 \<le> pd_process pd'"
    using quiet_added [OF q3] by auto
  have procs: "mCommandProcesses s4
      = take i (mCommandProcesses s) @ drop (Suc i) (mCommandProcesses s) @ a3"
    using i by (simp add: s4_def deleteProcData_def a3 same removeAt_def)
  obtain e2 where e2: "trace s2 = trace s @ e2"
    using quiet_trace [OF q2] by blast
  obtain e3 where e3: "trace s3 = trace s2 @ [?call] @ e3"
    using quiet_trace [OF q3] by auto
  have tr: "trace s4 = trace s @ (e2 @ [?call] @ e3) @ map FileRemove (pd_tempFiles pd)"
    by (simp add: s4_def deleteProcData_def e2 e3)
  show ?thesis
    using res calls procs fresh tr unfolding same by blast
qed

lemma scanAlarm_atLogin_skip:
  assumes "al_type alarm = AT_LOGIN_ALARM"
    and "secsTo (al_dateTime alarm) now < maxLateness env 1"
  shows "scanAlarm env now alarm (sc, s) = (sc, s)"
  using assms by (simp add: scanAlarm_def deferred_def repeatAtLogin_def Let_def)

lemma find_filter_other:
  "(\<And>x. P x \<Longrightarrow> Q x) \<Longrightarrow> find P (filter Q xs) = find P xs"
  by (induction xs) auto

lemma alarmOfType_removeExpired:
  "t \<noteq> t' \<Longrightarrow> alarmOfType (removeExpiredAlarm ev t) t' = alarmOfType ev t'"
  by (auto simp: alarmOfType_def removeExpiredAlarm_def intro: find_filter_other)

lemma cancelAlarm_alarms:
  "alarms (fst (cancelAlarm env ev t u s)) = filter (\<lambda>a. al_type a \<noteq> t) (alarms ev)"
  by (simp add: cancelAlarm_def Let_def case_prod_beta removeExpiredAlarm_def setEventID_def
      cancelCancelledDeferral_def)

lemma cancelAlarm_atLogin:
  "t \<noteq> AT_LOGIN_ALARM \<Longrightarrow>
   alarmOfType (fst (cancelAlarm env ev t u s)) AT_LOGIN_ALARM = alarmOfType ev AT_LOGIN_ALARM"
  by (auto simp: alarmOfType_def cancelAlarm_alarms intro: find_filter_other)

lemma advanceRecurrence_atLogin:
  assumes env: "\<And>ev t. alarmOfType (snd (setNextOccurrence env ev t)) AT_LOGIN_ALARM
                          = alarmOfType ev AT_LOGIN_ALARM"
    and ty: "al_type al \<noteq> AT_LOGIN_ALARM"
  shows "alarmOfType (fst (advanceRecurrence env now ev al u s)) AT_LOGIN_ALARM
           = alarmOfType ev AT_LOGIN_ALARM"
proof -
  have upd: "alarmOfType (setUpdated (cancelCancelledDeferral e)) AT_LOGIN_ALARM
               = alarmOfType e AT_LOGIN_ALARM" for e
    by (simp add: alarmOfType_def setUpdated_def cancelCancelledDeferral_def)
  show ?thesis
    using ty
    by (simp add: advanceRecurrence_def Let_def case_prod_beta cancelAlarm_atLogin env upd)
qed

lemma rescheduleAlarm_atLogin:
  assumes env: "\<And>ev t. alarmOfType (snd (setNextOccurrence env ev t)) AT_LOGIN_ALARM
                          = alarmOfType ev AT_LOGIN_ALARM"
    and ty: "al_type al \<noteq> AT_LOGIN_ALARM"
  shows "alarmOfType (fst (rescheduleAlarm env now ev al u s)) AT_LOGIN_ALARM
           = alarmOfType ev AT_LOGIN_ALARM"
proof -
  have ccd: "alarmOfType (cancelCancelledDeferral e) AT_LOGIN_ALARM
               = alarmOfType e AT_LOGIN_ALARM" for e
    by (simp add: alarmOfType_def cancelCancelledDeferral_def)
  show ?thesis
    using ty
    by (simp add: rescheduleAlarm_def Let_def case_prod_beta ccd alarmOfType_removeExpired
        advanceRecurrence_atLogin [OF env] repeatAtLogin_def)
qed

lemma scanAlarm_other_type:
  assumes env: "\<And>ev t. alarmOfType (snd (setNextOccurrence env ev t)) AT_LOGIN_ALARM
                          = alarmOfType ev AT_LOGIN_ALARM"
    and ty: "al_type a0 \<noteq> AT_LOGIN_ALARM"
  shows "alarmOfType (sc_event (fst (scanAlarm env now a0 (sc, s)))) AT_LOGIN_ALARM
           = alarmOfType (sc_event sc) AT_LOGIN_ALARM"
    and "al_type (sc_alarmToExecute sc) \<noteq> AT_LOGIN_ALARM \<Longrightarrow>
         al_type (sc_alarmToExecute (fst (scanAlarm env now a0 (sc, s)))) \<noteq> AT_LOGIN_ALARM"
proof -
  have arch: "alarmOfType (setArchive e) AT_LOGIN_ALARM = alarmOfType e AT_LOGIN_ALARM" for e
    by (simp add: alarmOfType_def setArchive_def)
  show "alarmOfType (sc_event (fst (scanAlarm env now a0 (sc, s)))) AT_LOGIN_ALARM
           = alarmOfType (sc_event sc) AT_LOGIN_ALARM"
    using ty
    by (simp add: scanAlarm_def Let_def case_prod_beta repeatAtLogin_def selectAlarm_def
        setTime_def cancelAlarm_atLogin rescheduleAlarm_atLogin [OF env] arch
        split: option.splits)
  show "al_type (sc_alarmToExecute (fst (scanAlarm env now a0 (sc, s)))) \<noteq> AT_LOGIN_ALARM"
    if "al_type (sc_alarmToExecute sc) \<noteq> AT_LOGIN_ALARM"
    using ty that
    by (simp add: scanAlarm_def Let_def case_prod_beta repeatAtLogin_def selectAlarm_def
        setTime_def KAAlarm0_def split: option.splits)
qed

lemma firstOfTypes_atLogin:
  "al_type (firstOfTypes ev ts) = AT_LOGIN_ALARM \<Longrightarrow>
   alarmOfType ev AT_LOGIN_ALARM = Some (firstOfTypes ev ts)"
proof (induction ts)
  case Nil
  then show ?case by (simp add: KAAlarm0_def)
next
  case (Cons t ts)
  show ?case
  proof (cases "alarmOfType ev t")
    case None
    with Cons show ?thesis by simp
  next
    case (Some a)
    then have "al_type a = t"
      by (auto simp: alarmOfType_def find_Some_iff)
    with Some Cons.prems show ?thesis by simp
  qed
qed

lemma scanAlarms_atLogin:
  "(\<And>ev t. alarmOfType (snd (setNextOccurrence env ev t)) AT_LOGIN_ALARM
               = alarmOfType ev AT_LOGIN_ALARM) \<Longrightarrow>
   al_type alarm = AT_LOGIN_ALARM \<Longrightarrow>
   secsTo (al_dateTime alarm) now < maxLateness env 1 \<Longrightarrow>
   alarmOfType (sc_event (fst st)) AT_LOGIN_ALARM = Some alarm \<Longrightarrow>
   al_type (sc_alarmToExecute (fst st)) \<noteq> AT_LOGIN_ALARM \<Longrightarrow>
   al_type a0 = AT_LOGIN_ALARM \<longrightarrow> a0 = alarm \<Longrightarrow>
   al_type (sc_alarmToExecute (fst (scanAlarms env now a0 st))) \<noteq> AT_LOGIN_ALARM"
proof (induction env now a0 st rule: scanAlarms.induct)
  case (1 env now a0 st)
  note env = "1.prems"(1) and login = "1.prems"(2) and recent = "1.prems"(3)
    and has = "1.prems"(4) and sel = "1.prems"(5) and cur = "1.prems"(6)
  obtain sc s where st: "st = (sc, s)"
    by (cases st)
  show ?case
  proof (cases "valid a0")
    case False
    then show ?thesis
      using sel by (simp add: scanAlarms_invalid)
  next
    case True
    let ?st1 = "scanAlarm env now a0 st"
    let ?next = "nextAlarm (sc_event (fst ?st1)) a0"
    have keep: "alarmOfType (sc_event (fst ?st1)) AT_LOGIN_ALARM = Some alarm
                \<and> al_type (sc_alarmToExecute (fst ?st1)) \<noteq> AT_LOGIN_ALARM"
    proof (cases "al_type a0 = AT_LOGIN_ALARM")
      case True
      with cur have "a0 = alarm"
        by blast
      then have "?st1 = st"
        using login recent st by (simp only: scanAlarm_atLogin_skip)
      then show ?thesis
        using has sel by (simp only:) blast
    next
      case False
      have "alarmOfType (sc_event (fst (scanAlarm env now a0 (sc, s)))) AT_LOGIN_ALARM
              = alarmOfType (sc_event sc) AT_LOGIN_ALARM"
        using env False by (rule scanAlarm_other_type(1))
      moreover have "al_type (sc_alarmToExecute (fst (scanAlarm env now a0 (sc, s))))
                       \<noteq> AT_LOGIN_ALARM"
        using env False sel [unfolded st fst_conv] by (rule scanAlarm_other_type(2))
      ultimately show ?thesis
        using has st by (simp only: fst_conv) simp
    qed
    have "al_type ?next = AT_LOGIN_ALARM \<longrightarrow> ?next = alarm"
    proof
      assume "al_type ?next = AT_LOGIN_ALARM"
      then have "alarmOfType (sc_event (fst ?st1)) AT_LOGIN_ALARM = Some ?next"
        unfolding nextAlarm_def by (rule firstOfTypes_atLogin)
      with keep show "?next = alarm"
        by (simp only:) blast
    qed
    with keep have rest: "al_type (sc_alarmToExecute (fst (scanAlarms env now ?next ?st1)))
                      \<noteq> AT_LOGIN_ALARM"
      using "1.IH" [OF _ refl env login recent] True by blast
    have "scanAlarms env now a0 st = scanAlarms env now ?next ?st1"
      using True by (rule scanAlarms_step)
    with rest show ?thesis
      by simp
  qed
qed

lemma filter_execOfType:
  "filter (execOfType t) (trace s) = filter (execOfType t) (execCalls s)"
proof -
  have "execOfType t e \<Longrightarrow> isExecAlarm e" for e
    by (cases e) simp_all
  then show ?thesis
    unfolding execCalls_def filter_filter by (intro filter_cong) auto
qed

lemma dispatch_calls:
  "execCalls (dispatch env now ident func (sc, s)) =
     (if valid (sc_alarmToExecute sc)
      then execCalls s @ [ExecAlarm (sc_event sc) (sc_alarmToExecute sc) True
                            (\<not> repeatAtLogin (sc_alarmToExecute sc)) (defaultNoPreAction env)]
      else if func = EVENT_TRIGGER \<and> valid (firstAlarm (sc_event sc))
      then execCalls s @ [ExecAlarm (sc_event sc) (firstAlarm (sc_event sc)) False
                            (defaultAllowDefer env) (defaultNoPreAction env)]
      else execCalls s)"
proof (cases "valid (sc_alarmToExecute sc)")
  case True
  then have "dispatch env now ident func (sc, s)
      = snd (snd (execAlarm env now (sc_event sc) (sc_alarmToExecute sc) True
                    (\<not> repeatAtLogin (sc_alarmToExecute sc)) (defaultNoPreAction env) s))"
    by (simp add: dispatch_def case_prod_beta)
  then show ?thesis
    using True by (simp add: execAlarm_execCalls)
next
  case False
  show ?thesis
  proof (cases "func = EVENT_TRIGGER \<and> valid (firstAlarm (sc_event sc))")
    case True
    let ?run = "execAlarm env now (sc_event sc) (firstAlarm (sc_event sc)) False
                  (defaultAllowDefer env) (defaultNoPreAction env) s"
    have "execCalls (dispatch env now ident func (sc, s)) = execCalls (snd (snd ?run))"
      using True False
      by (simp add: dispatch_def triggerFirst_def case_prod_beta Let_def execCalls_def)
    then show ?thesis
      using True False by (simp add: execAlarm_execCalls)
  next
    case notForced: False
    then show ?thesis
      using False
      by (auto simp: dispatch_def triggerFirst_def execCalls_def Let_def)
  qed
qed

lemma mainAndLogin_scan:
  "scanAlarms simpleEnv 1000 (firstAlarm mainAndLoginEvent) (initScan mainAndLoginEvent, s)
     = ((initScan mainAndLoginEvent)\<lparr>sc_alarmToExecute := messageAlarm MAIN_ALARM 400 0,
                                        sc_alarmToExecuteValid := True\<rparr>, s)"
proof -
  let ?m = "messageAlarm MAIN_ALARM 400 0"
  let ?l = "messageAlarm AT_LOGIN_ALARM 990 0"
  let ?sc = "(initScan mainAndLoginEvent)\<lparr>sc_alarmToExecute := ?m, sc_alarmToExecuteValid := True\<rparr>"
  have first: "firstAlarm mainAndLoginEvent = ?m"
    by (simp add: firstAlarm_main mainAndLoginEvent_def messageEvent_def messageAlarm_def)
  have vm: "valid ?m" and vl: "valid ?l"
    by (simp_all add: valid_def messageAlarm_def)
  have body: "scanAlarm simpleEnv 1000 ?m (initScan mainAndLoginEvent, s) = (?sc, s)"
    by (simp add: scanAlarm_def initScan_def deferred_def repeatAtLogin_def secsTo_def int32_def
        selectAlarm_def messageAlarm_def utcDateTime_def mainAndLoginEvent_def messageEvent_def
        Let_def)
  have nxt: "nextAlarm mainAndLoginEvent ?m = ?l"
    by (simp add: nextAlarm_def laterTypes_def alarmOfType_def mainAndLoginEvent_def
        messageEvent_def messageAlarm_def)
  have login: "al_type ?l = AT_LOGIN_ALARM"
    by (simp add: messageAlarm_def)
  have recent: "secsTo (al_dateTime ?l) 1000 < maxLateness simpleEnv 1"
    by (simp add: messageAlarm_def utcDateTime_def secsTo_def maxLateness_def LATENESS_LEEWAY_def
        int32_def simpleEnv_def)
  have last: "nextAlarm mainAndLoginEvent ?l = KAAlarm0"
    by (simp add: nextAlarm_def laterTypes_def messageAlarm_def)
  have ev: "sc_event ?sc = mainAndLoginEvent"
    by (simp add: initScan_def)
  show ?thesis
    by (simp add: first scanAlarms_step [OF vm] body ev nxt scanAlarms_step [OF vl]
        scanAlarm_atLogin_skip [OF login recent] last scanAlarms_invalid valid_KAAlarm0)
qed





lemma notDue_single_scan:
  assumes single: "alarms event = [alarm]" and main: "al_type alarm = MAIN_ALARM"
    and notDue: "secsTo (al_dateTime alarm) now < 0"
    and zoned: "\<not> dt_clockTime (al_dateTime alarm)"
  shows "scanAlarms env now (firstAlarm event) (initScan event, s) = (initScan event, s)"
proof -
  have body: "scanAlarm env now alarm (initScan event, s) = (initScan event, s)"
    using main notDue zoned
    by (simp add: scanAlarm_def initScan_def deferred_def Let_def)
  have nxt: "nextAlarm event alarm = KAAlarm0"
    unfolding nextAlarm_def
    by (rule firstOfTypes_none) (simp add: single main laterTypes_def)
  show ?thesis
    using single main
    by (simp add: firstAlarm_main scanAlarms_step [of alarm] valid_def body nxt initScan_event
        scanAlarms_invalid valid_KAAlarm0 [unfolded valid_def])
qed

lemma storeDelete_absent: "map_of (storeDelete e a c) (eventID e) = None"
  by (auto simp: storeDelete_def map_of_eq_None_iff)

lemma storeUpdate_keys: "map fst (storeUpdate e c) = map fst c"
  by (induction c) (auto simp: storeUpdate_def)

lemma storeUpdate_absent:
  "map_of c (eventID e) = None \<Longrightarrow> map_of (storeUpdate e c) (eventID e) = None"
proof -
  have "fst ` set (storeUpdate e c) = fst ` set c"
    using storeUpdate_keys [of e c, THEN arg_cong, of set] by simp
  then show "map_of c (eventID e) = None \<Longrightarrow> map_of (storeUpdate e c) (eventID e) = None"
    by (simp add: map_of_eq_None_iff)
qed

subsection \<open>Lateness policy\<close>

text \<open>
  C3 (as amended). For every \<open>lateCancel \<ge> 1\<close> for which no operation overflows (the check
  interval plus 5, \<open>(lateCancel - 1) * 60\<close> and their sum fit an \<^verbatim>\<open>int\<close>),
  \<open>maxLateness lateCancel\<close> is the daemon's check interval plus the leeway of 5 seconds
  plus \<open>(lateCancel - 1) * 60\<close> seconds; and \<open>maxLateness 0\<close> is the check interval plus
  5 seconds when that sum fits an \<^verbatim>\<open>int\<close>. The function reads the check interval and its
  argument only: it takes and returns no application state.
\<close>

theorem maxLateness_formula:
  "(1 \<le> lateCancel \<and> inInt (maxTimeSinceCheck env + 5) \<and> inInt ((lateCancel - 1) * 60)
      \<and> inInt (maxTimeSinceCheck env + 5 + (lateCancel - 1) * 60)
    \<longrightarrow> maxLateness env lateCancel = maxTimeSinceCheck env + 5 + (lateCancel - 1) * 60)
   \<and> (inInt (maxTimeSinceCheck env + 5) \<longrightarrow> maxLateness env 0 = maxTimeSinceCheck env + 5)"
proof (intro conjI impI)
  assume h: "1 \<le> lateCancel \<and> inInt (maxTimeSinceCheck env + 5) \<and> inInt ((lateCancel - 1) * 60)
      \<and> inInt (maxTimeSinceCheck env + 5 + (lateCancel - 1) * 60)"
  have less: "int32 (lateCancel - 1) = lateCancel - 1"
    using h by (intro int32_id) (simp_all add: inInt_def INT_MIN_def INT_MAX_def)
  have times: "int32 ((lateCancel - 1) * 60) = (lateCancel - 1) * 60"
    using h by (intro int32_id) (simp_all add: inInt_def)
  have base: "int32 (maxTimeSinceCheck env + 5) = maxTimeSinceCheck env + 5"
    using h by (intro int32_id) (simp_all add: inInt_def)
  have total: "int32 (maxTimeSinceCheck env + 5 + (lateCancel - 1) * 60)
                 = maxTimeSinceCheck env + 5 + (lateCancel - 1) * 60"
    using h by (intro int32_id) (simp_all add: inInt_def)
  have one: "1 \<le> lateCancel"
    using h by simp
  show "maxLateness env lateCancel = maxTimeSinceCheck env + 5 + (lateCancel - 1) * 60"
    unfolding maxLateness_def LATENESS_LEEWAY_def Let_def
    by (simp only: one if_True less times base total)
next
  assume h: "inInt (maxTimeSinceCheck env + 5)"
  have "int32 (maxTimeSinceCheck env + 5) = maxTimeSinceCheck env + 5"
    using h by (intro int32_id) (simp_all add: inInt_def)
  then show "maxLateness env 0 = maxTimeSinceCheck env + 5"
    unfolding maxLateness_def LATENESS_LEEWAY_def Let_def by simp
qed

theorem maxLateness_formula_witness:
  "(1::int) \<le> 5 \<and> inInt (maxTimeSinceCheck simpleEnv + 5) \<and> inInt ((5 - 1) * 60)
   \<and> inInt (maxTimeSinceCheck simpleEnv + 5 + (5 - 1) * 60)
   \<and> maxLateness simpleEnv 5 = 305 \<and> maxLateness simpleEnv 0 = 65"
  using maxLateness_formula [of 5 simpleEnv]
  by (simp add: simpleEnv_def inInt_def INT_MIN_def INT_MAX_def)

text \<open>
  C3 as stated, for every integer \<open>lateCancel \<ge> 1\<close>, fails where the \<^verbatim>\<open>int\<close>
  arithmetic overflows: with a check interval of 60 seconds and \<open>lateCancel = 35791396\<close>
  the product \<open>(lateCancel - 1) * 60\<close> exceeds \<open>INT_MAX\<close> and the function returns a
  negative number of seconds.
\<close>

theorem maxLateness_formula_counterexample:
  "(1::int) \<le> 35791396
   \<and> maxLateness simpleEnv 35791396 = - 2147483531
   \<and> maxTimeSinceCheck simpleEnv + 5 + (35791396 - 1) * 60 = 2147483765"
  by (simp add: maxLateness_def LATENESS_LEEWAY_def int32_def simpleEnv_def)

subsection \<open>Action queue\<close>

text \<open>
  C1. In every application state in which a drain of the queue is in progress
  (\<open>mProcessingQueue\<close> is set) or the engine is not yet initialised, \<open>processQueue\<close>
  returns and changes nothing: no entry is dequeued, the calendar and the pending queue are
  as before.
\<close>

theorem processQueue_guard:
  assumes "mProcessingQueue s \<or> \<not> mInitialised s"
  shows "processQueue env now s = Some s"
  using assms by (auto simp: processQueue_def)

theorem processQueue_guard_witness:
  "mProcessingQueue busyApp \<and> mDcopQueue busyApp \<noteq> []
   \<and> processQueue simpleEnv 1000 busyApp = Some busyApp"
  using processQueue_guard [of busyApp simpleEnv 1000] by (simp add: busyApp_def idleApp_def)



subsection \<open>Dispatch engine\<close>

text \<open>
  C5. For an event ID that the calendar store does not hold, and every function,
  \<open>handleEvent\<close> acknowledges the event to the daemon (\<open>Daemon::eventHandled\<close>), returns
  false, and changes nothing else: the calendar is untouched and the application goes on.
\<close>

theorem handleEvent_not_found:
  assumes "map_of (calendar s) ident = None"
  shows "handleEvent env now ident func s = (False, s\<lparr>trace := trace s @ [EventHandled ident]\<rparr>)"
  using assms by (simp add: handleEvent_def emit_def)

theorem handleEvent_not_found_witness:
  "map_of (calendar (idleApp [])) ''gone'' = None
   \<and> handleEvent simpleEnv 1000 ''gone'' EVENT_TRIGGER (idleApp [])
       = (False, (idleApp [])\<lparr>trace := [EventHandled ''gone'']\<rparr>)"
  using handleEvent_not_found [of "idleApp []" "''gone''" simpleEnv 1000 EVENT_TRIGGER]
  by (simp add: idleApp_def)

text \<open>
  C2 (as amended). Take an event in the calendar whose only alarm is a MAIN alarm, without
  recurrence or repetition (its most recent occurrence is its first and only one, at the
  alarm's time); the alarm is timed, its late-cancel threshold is at least 1, and it was
  due more than \<open>maxLateness lateCancel\<close> seconds before the current time, but not more
  than \<open>INT_MAX\<close> seconds before it. Then \<open>handleEvent\<close> with \<open>EVENT_HANDLE\<close> does not
  execute the alarm: no request is made, the event is marked for archiving (and archived
  unless it is being displayed), its alarm is removed and, no alarm remaining, it is
  deleted from the calendar with \<open>KAlarm::deleteEvent\<close>. The loop having noted an update,
  \<open>KAlarm::updateEvent\<close> is then called on the event that was deleted; the calendar holds
  no event under the ID afterwards, provided that \<open>deleteEvent\<close> removes the event of the
  ID and \<open>updateEvent\<close> does not add an event whose ID the calendar does not hold.
\<close>

theorem handleEvent_late_cancel:
  assumes found: "map_of (calendar s) ident = Some event"
    and single: "alarms event = [alarm]" and main: "al_type alarm = MAIN_ALARM"
    and once: "repeatCount event = 0" "\<not> recurs event"
    and timed: "\<not> dt_dateOnly (al_dateTime alarm)"
    and lc: "1 \<le> al_lateCancel alarm"
    and past: "dt_secs (al_dateTime alarm) \<le> now"
    and range: "now - dt_secs (al_dateTime alarm) \<le> INT_MAX"
    and late: "maxLateness env (al_lateCancel alarm) < now - dt_secs (al_dateTime alarm)"
    and occ: "previousOccurrence env event now True
                = ((FIRST_OR_ONLY_OCCURRENCE, False), al_dateTime alarm)"
  shows "handleEvent env now ident EVENT_HANDLE s =
     (let marked = event\<lparr>toBeArchived := True, cancelledDeferral := False\<rparr>;
          gone = marked\<lparr>alarms := []\<rparr>;
          cal = (if displaying event then calendar s
                 else snd (kAddArchivedEvent env marked (calendar s)))
      in (True, s\<lparr>calendar := kUpdateEvent env gone (kDeleteEvent env gone False cal)\<rparr>))
   \<and> (eventID event = ident
        \<and> (\<forall>e a c. map_of (kDeleteEvent env e a c) (eventID e) = None)
        \<and> (\<forall>e c. map_of c (eventID e) = None \<longrightarrow> map_of (kUpdateEvent env e c) (eventID e) = None)
      \<longrightarrow> map_of (calendar (snd (handleEvent env now ident EVENT_HANDLE s))) ident = None)"
proof -
  let ?marked = "event\<lparr>toBeArchived := True, cancelledDeferral := False\<rparr>"
  let ?gone = "?marked\<lparr>alarms := []\<rparr>"
  let ?cal = "if displaying event then calendar s
              else snd (kAddArchivedEvent env ?marked (calendar s))"
  have run: "handleEvent env now ident EVENT_HANDLE s
      = (True, s\<lparr>calendar := kUpdateEvent env ?gone (kDeleteEvent env ?gone False ?cal)\<rparr>)"
    using found lateCancel_scan [OF single main once timed lc past range late occ, of s]
    by (simp add: handleEvent_def dispatch_def triggerFirst_def initScan_def valid_KAAlarm0 Let_def)
  have absent: "map_of (kUpdateEvent env ?gone (kDeleteEvent env ?gone False ?cal)) ident = None"
    if key: "eventID event = ident"
      and del: "\<forall>e a c. map_of (kDeleteEvent env e a c) (eventID e) = None"
      and upd: "\<forall>e c. map_of c (eventID e) = None
                  \<longrightarrow> map_of (kUpdateEvent env e c) (eventID e) = None"
  proof -
    have ident: "eventID ?gone = ident"
      using key by simp
    have "map_of (kDeleteEvent env ?gone False ?cal) (eventID ?gone) = None"
      using del by blast
    then have "map_of (kUpdateEvent env ?gone (kDeleteEvent env ?gone False ?cal)) (eventID ?gone)
                 = None"
      using upd by blast
    then show ?thesis
      unfolding ident .
  qed
  show ?thesis
    unfolding run using absent by (simp add: Let_def)
qed

theorem handleEvent_late_cancel_witness:
  "map_of (calendar (idleApp [(''ev1'', lateEvent 5)])) ''ev1'' = Some (lateEvent 5)
   \<and> alarms (lateEvent 5) = [messageAlarm MAIN_ALARM 400 5]
   \<and> 1000 - dt_secs (al_dateTime (messageAlarm MAIN_ALARM 400 5)) \<le> INT_MAX
   \<and> maxLateness simpleEnv 5 < 1000 - dt_secs (al_dateTime (messageAlarm MAIN_ALARM 400 5))
   \<and> fst (handleEvent simpleEnv 1000 ''ev1'' EVENT_HANDLE (idleApp [(''ev1'', lateEvent 5)]))
   \<and> map_of (calendar (snd (handleEvent simpleEnv 1000 ''ev1'' EVENT_HANDLE
                               (idleApp [(''ev1'', lateEvent 5)])))) ''ev1'' = None
   \<and> map fst (calendar (snd (handleEvent simpleEnv 1000 ''ev1'' EVENT_HANDLE
                                (idleApp [(''ev1'', lateEvent 5)])))) = [''exp-ev1'']
   \<and> trace (snd (handleEvent simpleEnv 1000 ''ev1'' EVENT_HANDLE
                    (idleApp [(''ev1'', lateEvent 5)]))) = []"
proof -
  let ?s = "idleApp [(''ev1'', lateEvent 5)]"
  let ?a = "messageAlarm MAIN_ALARM 400 5"
  have found: "map_of (calendar ?s) ''ev1'' = Some (lateEvent 5)"
    by (simp add: idleApp_def)
  have single: "alarms (lateEvent 5) = [?a]"
    and once: "repeatCount (lateEvent 5) = 0" "\<not> recurs (lateEvent 5)"
    and key: "eventID (lateEvent 5) = ''ev1''"
    by (simp_all add: lateEvent_def messageEvent_def)
  have main: "al_type ?a = MAIN_ALARM" and timed: "\<not> dt_dateOnly (al_dateTime ?a)"
    and lc: "1 \<le> al_lateCancel ?a" and past: "dt_secs (al_dateTime ?a) \<le> 1000"
    and range: "1000 - dt_secs (al_dateTime ?a) \<le> INT_MAX"
    by (simp_all add: messageAlarm_def utcDateTime_def INT_MAX_def)
  have late: "maxLateness simpleEnv (al_lateCancel ?a) < 1000 - dt_secs (al_dateTime ?a)"
    by (simp add: messageAlarm_def utcDateTime_def maxLateness_def LATENESS_LEEWAY_def int32_def
        simpleEnv_def)
  have occ: "previousOccurrence simpleEnv (lateEvent 5) 1000 True
               = ((FIRST_OR_ONLY_OCCURRENCE, False), al_dateTime ?a)"
    by (simp add: simpleEnv_def onlyOccurrence_def alarmOfType_def lateEvent_def messageEvent_def
        messageAlarm_def utcDateTime_def)
  have del: "\<forall>e a c. map_of (kDeleteEvent simpleEnv e a c) (eventID e) = None"
    by (simp add: simpleEnv_def storeDelete_absent)
  have upd: "\<forall>e c. map_of c (eventID e) = None
               \<longrightarrow> map_of (kUpdateEvent simpleEnv e c) (eventID e) = None"
    by (simp add: simpleEnv_def storeUpdate_absent)
  note t = handleEvent_late_cancel [OF found single main once timed lc past range late occ]
  have absent: "map_of (calendar (snd (handleEvent simpleEnv 1000 ''ev1'' EVENT_HANDLE ?s))) ''ev1''
                  = None"
    using t key del upd by blast
  have run: "handleEvent simpleEnv 1000 ''ev1'' EVENT_HANDLE ?s =
     (let marked = (lateEvent 5)\<lparr>toBeArchived := True, cancelledDeferral := False\<rparr>;
          gone = marked\<lparr>alarms := []\<rparr>;
          cal = (if displaying (lateEvent 5) then calendar ?s
                 else snd (kAddArchivedEvent simpleEnv marked (calendar ?s)))
      in (True, ?s\<lparr>calendar := kUpdateEvent simpleEnv gone
                                  (kDeleteEvent simpleEnv gone False cal)\<rparr>))"
    using t by blast
  have rest: "fst (handleEvent simpleEnv 1000 ''ev1'' EVENT_HANDLE ?s)
      \<and> map fst (calendar (snd (handleEvent simpleEnv 1000 ''ev1'' EVENT_HANDLE ?s))) = [''exp-ev1'']
      \<and> trace (snd (handleEvent simpleEnv 1000 ''ev1'' EVENT_HANDLE ?s)) = []"
    unfolding run
    by (simp add: Let_def idleApp_def lateEvent_def messageEvent_def simpleEnv_def storeUpdate_def
        storeDelete_def storeArchive_def archivedID_def)
  show ?thesis
    using found single range late absent rest by (simp add: messageAlarm_def)
qed

text \<open>
  C2 as stated, for every due time more than \<open>maxLateness lateCancel\<close> seconds before the
  current time, fails for an alarm that is more than \<open>INT_MAX\<close> seconds late: the lateness
  is held in an \<^verbatim>\<open>int\<close>, which wraps to a negative number, so the alarm is taken for not
  due; nothing is cancelled, the event stays in the calendar with its alarm, and the
  daemon is told that the event was handled.
\<close>

theorem handleEvent_late_cancel_counterexample:
  "alarms (lateEvent 5) = [messageAlarm MAIN_ALARM 400 5]
   \<and> maxLateness simpleEnv 5 < farFuture - dt_secs (al_dateTime (messageAlarm MAIN_ALARM 400 5))
   \<and> secsTo (al_dateTime (messageAlarm MAIN_ALARM 400 5)) farFuture = - 1294967696
   \<and> handleEvent simpleEnv farFuture ''ev1'' EVENT_HANDLE (idleApp [(''ev1'', lateEvent 5)])
       = (True, (idleApp [(''ev1'', lateEvent 5)])\<lparr>trace := [EventHandled ''ev1'']\<rparr>)"
proof -
  let ?s = "idleApp [(''ev1'', lateEvent 5)]"
  let ?a = "messageAlarm MAIN_ALARM 400 5"
  have single: "alarms (lateEvent 5) = [?a]"
    by (simp add: lateEvent_def messageEvent_def)
  have main: "al_type ?a = MAIN_ALARM" and zoned: "\<not> dt_clockTime (al_dateTime ?a)"
    by (simp_all add: messageAlarm_def utcDateTime_def)
  have secs: "secsTo (al_dateTime ?a) farFuture = - 1294967696"
    by (simp add: secsTo_def int32_def farFuture_def messageAlarm_def utcDateTime_def)
  have notDue: "secsTo (al_dateTime ?a) farFuture < 0"
    unfolding secs by simp
  have late: "maxLateness simpleEnv 5 < farFuture - dt_secs (al_dateTime ?a)"
    by (simp add: messageAlarm_def utcDateTime_def maxLateness_def LATENESS_LEEWAY_def int32_def
        simpleEnv_def farFuture_def)
  have scan: "scanAlarms simpleEnv farFuture (firstAlarm (lateEvent 5)) (initScan (lateEvent 5), ?s)
                = (initScan (lateEvent 5), ?s)"
    using single main notDue zoned by (rule notDue_single_scan)
  have nothing: "firstAlarm (lateEvent 5) = ?a"
    using single main by (simp add: firstAlarm_main)
  have "handleEvent simpleEnv farFuture ''ev1'' EVENT_HANDLE ?s
          = (True, dispatch simpleEnv farFuture ''ev1'' EVENT_HANDLE
                     (scanAlarms simpleEnv farFuture (firstAlarm (lateEvent 5))
                        (initScan (lateEvent 5), ?s)))"
    by (simp add: handleEvent_def idleApp_def)
  then have "handleEvent simpleEnv farFuture ''ev1'' EVENT_HANDLE ?s
          = (True, ?s\<lparr>trace := [EventHandled ''ev1'']\<rparr>)"
    unfolding scan
    by (simp add: dispatch_def triggerFirst_def initScan_def valid_KAAlarm0 emit_def idleApp_def)
  with single late secs show ?thesis
    by simp
qed

text \<open>
  C4 (as amended). Take an event in the calendar whose only alarm is a MAIN alarm, without
  repetition, whose late-cancel threshold is 0 and whose time is not after the current
  time and at most \<open>INT_MAX\<close> seconds before it. Then with \<open>EVENT_HANDLE\<close> the scan
  selects that alarm and changes nothing (neither the cancellation nor the reschedule of
  the late-cancel branch is reached), and \<open>handleEvent\<close> executes it: the result is that
  of \<open>execAlarm(event, alarm, true, true)\<close>, the one call of \<open>execAlarm\<close> made.
\<close>

theorem handleEvent_never_cancel:
  assumes found: "map_of (calendar s) ident = Some event"
    and single: "alarms event = [alarm]" and main: "al_type alarm = MAIN_ALARM"
    and once: "repeatCount event = 0"
    and never: "al_lateCancel alarm = 0"
    and past: "dt_secs (al_dateTime alarm) \<le> now"
    and range: "now - dt_secs (al_dateTime alarm) \<le> INT_MAX"
  shows "scanAlarms env now (firstAlarm event) (initScan event, s)
           = ((initScan event)\<lparr>sc_alarmToExecute := alarm, sc_alarmToExecuteValid := True\<rparr>, s)
     \<and> handleEvent env now ident EVENT_HANDLE s
           = (True, snd (snd (execAlarm env now event alarm True True (defaultNoPreAction env) s)))
     \<and> execCalls (snd (handleEvent env now ident EVENT_HANDLE s))
           = execCalls s @ [ExecAlarm event alarm True True (defaultNoPreAction env)]"
proof -
  have due: "\<not> secsTo (al_dateTime alarm) now < 0"
    using secsTo_exact [OF past range] past by simp
  have body: "scanAlarm env now alarm (initScan event, s)
      = ((initScan event)\<lparr>sc_alarmToExecute := alarm, sc_alarmToExecuteValid := True\<rparr>, s)"
    using main once never due
    by (simp add: scanAlarm_def initScan_def deferred_def repeatAtLogin_def
        selectAlarm_def Let_def)
  have nxt: "nextAlarm event alarm = KAAlarm0"
    unfolding nextAlarm_def
    by (rule firstOfTypes_none) (simp add: single main laterTypes_def)
  have scan: "scanAlarms env now (firstAlarm event) (initScan event, s)
      = ((initScan event)\<lparr>sc_alarmToExecute := alarm, sc_alarmToExecuteValid := True\<rparr>, s)"
    using single main
    by (simp add: firstAlarm_main scanAlarms_step [of alarm] valid_def body nxt initScan_event
        scanAlarms_invalid valid_KAAlarm0 [unfolded valid_def])
  have run: "handleEvent env now ident EVENT_HANDLE s
      = (True, snd (snd (execAlarm env now event alarm True True (defaultNoPreAction env) s)))"
    using found scan main
    by (simp add: handleEvent_def dispatch_def initScan_def valid_def repeatAtLogin_def
        case_prod_beta)
  show ?thesis
    using scan run by (simp add: execAlarm_execCalls)
qed

theorem handleEvent_never_cancel_witness:
  "map_of (calendar (idleApp [(''ev1'', lateEvent 0)])) ''ev1'' = Some (lateEvent 0)
   \<and> alarms (lateEvent 0) = [messageAlarm MAIN_ALARM 400 0]
   \<and> dt_secs (al_dateTime (messageAlarm MAIN_ALARM 400 0)) \<le> 1000
   \<and> 1000 - dt_secs (al_dateTime (messageAlarm MAIN_ALARM 400 0)) \<le> INT_MAX
   \<and> execCalls (snd (handleEvent simpleEnv 1000 ''ev1'' EVENT_HANDLE (idleApp [(''ev1'', lateEvent 0)])))
       = [ExecAlarm (lateEvent 0) (messageAlarm MAIN_ALARM 400 0) True True False]"
proof -
  have found: "map_of (calendar (idleApp [(''ev1'', lateEvent 0)])) ''ev1'' = Some (lateEvent 0)"
    by (simp add: idleApp_def)
  have single: "alarms (lateEvent 0) = [messageAlarm MAIN_ALARM 400 0]"
    by (simp add: lateEvent_def messageEvent_def)
  have main: "al_type (messageAlarm MAIN_ALARM 400 0) = MAIN_ALARM"
    and never: "al_lateCancel (messageAlarm MAIN_ALARM 400 0) = 0"
    and past: "dt_secs (al_dateTime (messageAlarm MAIN_ALARM 400 0)) \<le> 1000"
    and range: "1000 - dt_secs (al_dateTime (messageAlarm MAIN_ALARM 400 0)) \<le> INT_MAX"
    by (simp_all add: messageAlarm_def utcDateTime_def INT_MAX_def)
  have once: "repeatCount (lateEvent 0) = 0"
    by (simp add: lateEvent_def messageEvent_def)
  have "execCalls (snd (handleEvent simpleEnv 1000 ''ev1'' EVENT_HANDLE
                          (idleApp [(''ev1'', lateEvent 0)])))
          = execCalls (idleApp [(''ev1'', lateEvent 0)])
            @ [ExecAlarm (lateEvent 0) (messageAlarm MAIN_ALARM 400 0) True True
                 (defaultNoPreAction simpleEnv)]"
    using handleEvent_never_cancel [OF found single main once never past range, of simpleEnv]
    by blast
  then show ?thesis
    using found single past range by (simp add: execCalls_def idleApp_def simpleEnv_def)
qed

text \<open>
  C4 as stated, for every due time in the past, fails for an alarm that is more than
  \<open>INT_MAX\<close> seconds late: the lateness is held in an \<^verbatim>\<open>int\<close>, which wraps to a
  negative number, so the alarm is taken for not due and is not executed; the daemon is
  told that the event was handled.
\<close>

theorem handleEvent_never_cancel_counterexample:
  "alarms (lateEvent 0) = [messageAlarm MAIN_ALARM 400 0]
   \<and> dt_secs (al_dateTime (messageAlarm MAIN_ALARM 400 0)) \<le> farFuture
   \<and> execCalls (snd (handleEvent simpleEnv farFuture ''ev1'' EVENT_HANDLE
                       (idleApp [(''ev1'', lateEvent 0)]))) = []
   \<and> trace (snd (handleEvent simpleEnv farFuture ''ev1'' EVENT_HANDLE
                   (idleApp [(''ev1'', lateEvent 0)]))) = [EventHandled ''ev1'']"
proof -
  let ?s = "idleApp [(''ev1'', lateEvent 0)]"
  let ?a = "messageAlarm MAIN_ALARM 400 0"
  have single: "alarms (lateEvent 0) = [?a]"
    by (simp add: lateEvent_def messageEvent_def)
  have main: "al_type ?a = MAIN_ALARM" and zoned: "\<not> dt_clockTime (al_dateTime ?a)"
    and past: "dt_secs (al_dateTime ?a) \<le> farFuture"
    by (simp_all add: messageAlarm_def utcDateTime_def farFuture_def)
  have notDue: "secsTo (al_dateTime ?a) farFuture < 0"
    by (simp add: secsTo_def int32_def farFuture_def messageAlarm_def utcDateTime_def)
  have scan: "scanAlarms simpleEnv farFuture (firstAlarm (lateEvent 0)) (initScan (lateEvent 0), ?s)
                = (initScan (lateEvent 0), ?s)"
    using single main notDue zoned by (rule notDue_single_scan)
  have "handleEvent simpleEnv farFuture ''ev1'' EVENT_HANDLE ?s
          = (True, dispatch simpleEnv farFuture ''ev1'' EVENT_HANDLE
                     (scanAlarms simpleEnv farFuture (firstAlarm (lateEvent 0))
                        (initScan (lateEvent 0), ?s)))"
    by (simp add: handleEvent_def idleApp_def)
  then have "handleEvent simpleEnv farFuture ''ev1'' EVENT_HANDLE ?s
          = (True, ?s\<lparr>trace := [EventHandled ''ev1'']\<rparr>)"
    unfolding scan
    by (simp add: dispatch_def triggerFirst_def initScan_def valid_KAAlarm0 emit_def idleApp_def)
  then show ?thesis
    using single past by (simp add: execCalls_def)
qed

text \<open>
  C7 (as amended). When the scan of the alarms has selected no alarm and the event still
  has a first alarm after the scan, \<open>handleEvent\<close> with \<open>EVENT_TRIGGER\<close> executes that
  first alarm whether it is due or not, by the one call
  \<open>execAlarm(event, firstAlarm, false)\<close>, which returns the event as it was (marked for
  archiving when it is enabled). No reschedule is persisted as a result of it, the calendar
  being left as the scan left it, unless the call raises an open window of the event again
  (\<open>win->repeat(alarm)\<close>, which reschedules the alarm); only an update that the scan
  itself noted is written afterwards.
\<close>

theorem handleEvent_trigger_forced:
  assumes found: "map_of (calendar s) ident = Some event"
    and scan: "scanAlarms env now (firstAlarm event) (initScan event, s) = (sc, s1)"
    and none: "\<not> valid (sc_alarmToExecute sc)"
    and first: "valid (firstAlarm (sc_event sc))"
  shows "\<exists>result e s2.
      execAlarm env now (sc_event sc) (firstAlarm (sc_event sc)) False (defaultAllowDefer env)
        (defaultNoPreAction env) s1 = (result, e, s2)
      \<and> e = (if enabled (sc_event sc) then setArchive (sc_event sc) else sc_event sc)
      \<and> (\<not> raisesWindow (sc_event sc) (firstAlarm (sc_event sc)) s1 \<longrightarrow> calendar s2 = calendar s1)
      \<and> execCalls s1 = execCalls s
      \<and> execCalls s2 = execCalls s @ [ExecAlarm (sc_event sc) (firstAlarm (sc_event sc)) False
                                        (defaultAllowDefer env) (defaultNoPreAction env)]
      \<and> handleEvent env now ident EVENT_TRIGGER s
          = (True, if sc_updateCalAndDisplay sc
                   then s2\<lparr>calendar := kUpdateEvent env e (calendar s2)\<rparr> else s2)"
proof -
  obtain result e s2 where run:
    "execAlarm env now (sc_event sc) (firstAlarm (sc_event sc)) False (defaultAllowDefer env)
       (defaultNoPreAction env) s1 = (result, e, s2)"
    by (cases "execAlarm env now (sc_event sc) (firstAlarm (sc_event sc)) False
                 (defaultAllowDefer env) (defaultNoPreAction env) s1") auto
  have same: "e = (if enabled (sc_event sc) then setArchive (sc_event sc) else sc_event sc)"
    using execAlarm_event [of env now "sc_event sc" "firstAlarm (sc_event sc)"
        "defaultAllowDefer env" "defaultNoPreAction env" s1] run
    by simp
  have frame: "calendar s2 = calendar s1"
    if "\<not> raisesWindow (sc_event sc) (firstAlarm (sc_event sc)) s1"
    using execAlarm_no_reschedule [OF that, of env now "defaultAllowDefer env"
        "defaultNoPreAction env"] run
    by simp
  have quiet_scan: "execCalls s1 = execCalls s"
    using scanAlarms_quiet [of s "(initScan event, s)" env now "firstAlarm event"] scan
    by (simp add: quiet_refl quiet_execCalls)
  have calls: "execCalls s2 = execCalls s1 @ [ExecAlarm (sc_event sc) (firstAlarm (sc_event sc))
      False (defaultAllowDefer env) (defaultNoPreAction env)]"
    using execAlarm_execCalls [of env now "sc_event sc" "firstAlarm (sc_event sc)" False
        "defaultAllowDefer env" "defaultNoPreAction env" s1] run
    by simp
  have "handleEvent env now ident EVENT_TRIGGER s
          = (True, if sc_updateCalAndDisplay sc
                   then s2\<lparr>calendar := kUpdateEvent env e (calendar s2)\<rparr> else s2)"
    using found scan none first run
    by (simp add: handleEvent_def dispatch_def triggerFirst_def Let_def)
  with run same frame quiet_scan calls show ?thesis
    by simp
qed

theorem handleEvent_trigger_forced_witness:
  "map_of (calendar (idleApp [(''ev1'', futureEvent)])) ''ev1'' = Some futureEvent
   \<and> \<not> valid (sc_alarmToExecute (initScan futureEvent))
   \<and> valid (firstAlarm futureEvent)
   \<and> \<not> raisesWindow futureEvent (firstAlarm futureEvent) (idleApp [(''ev1'', futureEvent)])
   \<and> secsTo (al_dateTime (firstAlarm futureEvent)) 1000 < 0
   \<and> execCalls (snd (handleEvent simpleEnv 1000 ''ev1'' EVENT_TRIGGER (idleApp [(''ev1'', futureEvent)])))
        = [ExecAlarm futureEvent (firstAlarm futureEvent) False True False]
   \<and> calendar (snd (handleEvent simpleEnv 1000 ''ev1'' EVENT_TRIGGER (idleApp [(''ev1'', futureEvent)])))
        = [(''ev1'', futureEvent)]"
proof -
  let ?s = "idleApp [(''ev1'', futureEvent)]"
  have first: "firstAlarm futureEvent = messageAlarm MAIN_ALARM 2000 0"
    by (simp add: firstAlarm_main futureEvent_def messageEvent_def messageAlarm_def)
  have found: "map_of (calendar ?s) ''ev1'' = Some futureEvent"
    by (simp add: idleApp_def)
  have none: "\<not> valid (sc_alarmToExecute (initScan futureEvent))"
    by (simp add: initScan_def valid_KAAlarm0)
  have one: "valid (firstAlarm (sc_event (initScan futureEvent)))"
    by (simp add: initScan_def first valid_def messageAlarm_def)
  have closed: "\<not> raisesWindow futureEvent (firstAlarm futureEvent) ?s"
    by (simp add: raisesWindow_def freshWindow_def findEvent_def idleApp_def)
  have notDue: "secsTo (al_dateTime (firstAlarm futureEvent)) 1000 < 0"
    by (simp add: first messageAlarm_def utcDateTime_def secsTo_def int32_def)
  obtain result e s2 where
    calls: "execCalls s2 = execCalls ?s @ [ExecAlarm (sc_event (initScan futureEvent))
        (firstAlarm (sc_event (initScan futureEvent))) False (defaultAllowDefer simpleEnv)
        (defaultNoPreAction simpleEnv)]"
    and cal: "\<not> raisesWindow (sc_event (initScan futureEvent))
                  (firstAlarm (sc_event (initScan futureEvent))) ?s \<longrightarrow> calendar s2 = calendar ?s"
    and run: "handleEvent simpleEnv 1000 ''ev1'' EVENT_TRIGGER ?s
        = (True, if sc_updateCalAndDisplay (initScan futureEvent)
                 then s2\<lparr>calendar := kUpdateEvent simpleEnv e (calendar s2)\<rparr> else s2)"
    using handleEvent_trigger_forced [OF found notDue_scan none one] by blast
  have kept: "calendar s2 = calendar ?s"
    using cal closed by (simp add: initScan_def)
  have "snd (handleEvent simpleEnv 1000 ''ev1'' EVENT_TRIGGER ?s) = s2"
    using run by (simp add: initScan_def)
  then show ?thesis
    using found none one closed notDue calls kept
    by (simp add: initScan_def execCalls_def idleApp_def simpleEnv_def)
qed

text \<open>
  C7 as stated fails in two ways. When the scan has cancelled every alarm of the event
  (the event of C2, handled with \<open>EVENT_TRIGGER\<close>), the scan selects no alarm and
  nothing is executed, the guard \<open>if (alarm.valid())\<close> finding no first alarm. And when a
  window of the event is open and has a Defer button, the forced execution raises it again
  with \<open>win->repeat(alarm)\<close>, which reschedules the alarm although \<open>execAlarm\<close> was called
  with rescheduling disabled: for an event with a pending deferral, the scan having noted
  no update, the deferral is removed and the event is written to the calendar.
\<close>

theorem handleEvent_trigger_forced_counterexample:
  "\<not> valid (sc_alarmToExecute (fst (scanAlarms simpleEnv 1000 (firstAlarm (lateEvent 5))
                (initScan (lateEvent 5), idleApp [(''ev1'', lateEvent 5)]))))
   \<and> execCalls (snd (handleEvent simpleEnv 1000 ''ev1'' EVENT_TRIGGER
                       (idleApp [(''ev1'', lateEvent 5)]))) = []
   \<and> scanAlarms simpleEnv 1000 (firstAlarm deferredEvent) (initScan deferredEvent, raisedApp)
       = (initScan deferredEvent, raisedApp)
   \<and> \<not> valid (sc_alarmToExecute (initScan deferredEvent))
   \<and> \<not> sc_updateCalAndDisplay (initScan deferredEvent)
   \<and> execCalls (snd (handleEvent simpleEnv 1000 ''ev1'' EVENT_TRIGGER raisedApp))
       = [ExecAlarm deferredEvent (messageAlarm MAIN_ALARM 2000 0) False True False]
   \<and> calendar raisedApp = [(''ev1'', deferredEvent)]
   \<and> calendar (snd (handleEvent simpleEnv 1000 ''ev1'' EVENT_TRIGGER raisedApp))
       = [(''ev1'', messageEvent ''ev1'' [messageAlarm MAIN_ALARM 2000 0])]"
proof -
  let ?s = "idleApp [(''ev1'', lateEvent 5)]"
  let ?alarm = "messageAlarm MAIN_ALARM 400 5"
  let ?gone = "(lateEvent 5)\<lparr>toBeArchived := True, cancelledDeferral := False, alarms := []\<rparr>"
  have scan: "scanAlarms simpleEnv 1000 (firstAlarm (lateEvent 5)) (initScan (lateEvent 5), ?s)
      = ((initScan (lateEvent 5))\<lparr>sc_event := ?gone, sc_updateCalAndDisplay := True\<rparr>,
         ?s\<lparr>calendar := kDeleteEvent simpleEnv ?gone False
                 (snd (kAddArchivedEvent simpleEnv
                    ((lateEvent 5)\<lparr>toBeArchived := True, cancelledDeferral := False\<rparr>)
                    (calendar ?s)))\<rparr>)"
    using lateCancel_scan [of "lateEvent 5" ?alarm 1000 simpleEnv ?s]
    by (simp add: lateEvent_def messageEvent_def messageAlarm_def utcDateTime_def simpleEnv_def
        maxLateness_def LATENESS_LEEWAY_def int32_def INT_MAX_def onlyOccurrence_def
        alarmOfType_def Let_def)
  have nofirst: "firstAlarm ?gone = KAAlarm0"
    unfolding firstAlarm_def by (rule firstOfTypes_none) simp
  have found: "map_of (calendar ?s) ''ev1'' = Some (lateEvent 5)"
    by (simp add: idleApp_def)
  have "handleEvent simpleEnv 1000 ''ev1'' EVENT_TRIGGER ?s
          = (True, dispatch simpleEnv 1000 ''ev1'' EVENT_TRIGGER
                     (scanAlarms simpleEnv 1000 (firstAlarm (lateEvent 5))
                        (initScan (lateEvent 5), ?s)))"
    using found by (simp add: handleEvent_def)
  then have calls: "execCalls (snd (handleEvent simpleEnv 1000 ''ev1'' EVENT_TRIGGER ?s))
                      = execCalls ?s"
    unfolding scan
    by (simp add: dispatch_def triggerFirst_def nofirst valid_KAAlarm0 initScan_def execCalls_def)
  have none: "\<not> valid (sc_alarmToExecute (fst (scanAlarms simpleEnv 1000
                 (firstAlarm (lateEvent 5)) (initScan (lateEvent 5), ?s))))"
    unfolding scan by (simp add: initScan_def valid_KAAlarm0)
  have empty: "execCalls ?s = []"
    by (simp add: execCalls_def idleApp_def)
  let ?m = "messageAlarm MAIN_ALARM 2000 0"
  let ?d = "messageAlarm DEFERRED_ALARM 1500 0"
  have fm: "firstAlarm deferredEvent = ?m"
    by (simp add: firstAlarm_main deferredEvent_def messageEvent_def messageAlarm_def)
  have vm: "valid ?m" and vd: "valid ?d"
    by (simp_all add: valid_def messageAlarm_def)
  have bm: "scanAlarm simpleEnv 1000 ?m (initScan deferredEvent, raisedApp)
              = (initScan deferredEvent, raisedApp)"
    by (simp add: scanAlarm_def initScan_def deferred_def messageAlarm_def utcDateTime_def
        secsTo_def int32_def Let_def)
  have bd: "scanAlarm simpleEnv 1000 ?d (initScan deferredEvent, raisedApp)
              = (initScan deferredEvent, raisedApp)"
    by (simp add: scanAlarm_def initScan_def deferred_def messageAlarm_def utcDateTime_def
        secsTo_def int32_def deferredEvent_def messageEvent_def Let_def)
  have nm: "nextAlarm deferredEvent ?m = ?d"
    by (simp add: nextAlarm_def laterTypes_def alarmOfType_def deferredEvent_def messageEvent_def
        messageAlarm_def)
  have nd: "nextAlarm deferredEvent ?d = KAAlarm0"
    unfolding nextAlarm_def
    by (rule firstOfTypes_none)
       (simp add: laterTypes_def deferredEvent_def messageEvent_def messageAlarm_def)
  have scan2: "scanAlarms simpleEnv 1000 (firstAlarm deferredEvent) (initScan deferredEvent, raisedApp)
                 = (initScan deferredEvent, raisedApp)"
    by (simp add: fm scanAlarms_step [OF vm] bm initScan_event nm scanAlarms_step [OF vd] bd nd
        scanAlarms_invalid valid_KAAlarm0)
  have "handleEvent simpleEnv 1000 ''ev1'' EVENT_TRIGGER raisedApp
          = (True, dispatch simpleEnv 1000 ''ev1'' EVENT_TRIGGER
                     (scanAlarms simpleEnv 1000 (firstAlarm deferredEvent)
                        (initScan deferredEvent, raisedApp)))"
    by (simp add: handleEvent_def raisedApp_def idleApp_def)
  then have run2: "snd (handleEvent simpleEnv 1000 ''ev1'' EVENT_TRIGGER raisedApp)
      = snd (snd (execAlarm simpleEnv 1000 deferredEvent ?m False True False raisedApp))"
    unfolding scan2
    by (simp add: dispatch_def triggerFirst_def initScan_def valid_KAAlarm0 fm vm Let_def
        case_prod_beta simpleEnv_def)
  have calls2: "execCalls (snd (handleEvent simpleEnv 1000 ''ev1'' EVENT_TRIGGER raisedApp))
      = [ExecAlarm deferredEvent ?m False True False]"
    unfolding run2
    by (simp only: execAlarm_execCalls) (simp add: execCalls_def raisedApp_def idleApp_def)
  have written: "calendar (snd (snd (execAlarm simpleEnv 1000 deferredEvent ?m False True False
                                       raisedApp)))
      = [(''ev1'', messageEvent ''ev1'' [?m])]"
    by (simp add: execAlarm_def execDisplay_def showAlarm_def freshWindow_def findEvent_def
        winRepeat_def rescheduleAlarm_def advanceRecurrence_def noRecurrence_def eventDeferred_def
        removeExpiredAlarm_def cancelCancelledDeferral_def alarmOfType_def setArchive_def
        reminder_def deferred_def repeatAtLogin_def storeUpdate_def emit_def Let_def
        raisedApp_def idleApp_def deferredEvent_def messageEvent_def messageAlarm_def
        utcDateTime_def simpleEnv_def)
  have start: "calendar raisedApp = [(''ev1'', deferredEvent)]"
    by (simp add: raisedApp_def idleApp_def)
  have idle: "\<not> valid (sc_alarmToExecute (initScan deferredEvent))"
    "\<not> sc_updateCalAndDisplay (initScan deferredEvent)"
    by (simp_all add: initScan_def valid_KAAlarm0)
  show ?thesis
    using none calls empty scan2 idle calls2 start written run2 by simp
qed

subsection \<open>Rescheduler and canceller\<close>

text \<open>
  C8. \<open>cancelAlarm(event, alarmType, updateNow)\<close> removes the alarm of the given type
  (after archiving the event when the main alarm goes, the event is not being displayed
  and it is to be archived). If the event is left without any alarm it is deleted from the
  calendar; otherwise it is written back when \<open>updateNow\<close> is set, and the calendar is
  left alone when it is not. So an event is only ever written with an alarm: every
  property of calendars that deleting and archiving keep, and that updating keeps for an
  event owning an alarm (such as: every live event owns an alarm), is kept by
  \<open>cancelAlarm\<close>.
\<close>

theorem cancelAlarm_deletes_or_persists:
  "cancelAlarm env event alarmType updateNow s =
     (let event' = removeExpiredAlarm (cancelCancelledDeferral event) alarmType;
          cal = (if alarmType = MAIN_ALARM \<and> \<not> displaying event \<and> toBeArchived event
                 then snd (kAddArchivedEvent env (cancelCancelledDeferral event) (calendar s))
                 else calendar s)
      in (event', s\<lparr>calendar := (if alarmCount event' = 0 then kDeleteEvent env event' False cal
                                   else if updateNow then kUpdateEvent env event' cal
                                   else cal)\<rparr>))
   \<and> ((\<forall>e c. P c \<longrightarrow> P (kDeleteEvent env e False c))
        \<and> (\<forall>e c. P c \<longrightarrow> P (snd (kAddArchivedEvent env e c)))
        \<and> (\<forall>e c. P c \<and> 0 < alarmCount e \<longrightarrow> P (kUpdateEvent env e c))
        \<and> P (calendar s)
      \<longrightarrow> P (calendar (snd (cancelAlarm env event alarmType updateNow s))))"
proof -
  let ?event' = "removeExpiredAlarm (cancelCancelledDeferral event) alarmType"
  let ?cal = "if alarmType = MAIN_ALARM \<and> \<not> displaying event \<and> toBeArchived event
              then snd (kAddArchivedEvent env (cancelCancelledDeferral event) (calendar s))
              else calendar s"
  let ?final = "if alarmCount ?event' = 0 then kDeleteEvent env ?event' False ?cal
                else if updateNow then kUpdateEvent env ?event' ?cal else ?cal"
  have eq: "cancelAlarm env event alarmType updateNow s = (?event', s\<lparr>calendar := ?final\<rparr>)"
    by (simp add: cancelAlarm_def Let_def case_prod_beta setEventID_def removeExpiredAlarm_def
        cancelCancelledDeferral_def)
  have inv: "P ?final"
    if del: "\<forall>e c. P c \<longrightarrow> P (kDeleteEvent env e False c)"
      and arch: "\<forall>e c. P c \<longrightarrow> P (snd (kAddArchivedEvent env e c))"
      and upd: "\<forall>e c. P c \<and> 0 < alarmCount e \<longrightarrow> P (kUpdateEvent env e c)"
      and start: "P (calendar s)"
  proof -
    have "P ?cal"
      using arch start by simp
    then show ?thesis
      using del upd by simp
  qed
  show ?thesis
    using eq inv by (simp add: Let_def)
qed

theorem cancelAlarm_deletes_or_persists_witness:
  "liveEventsHaveAlarms (calendar (idleApp [(''ev1'', lateEvent 0)]))
   \<and> liveEventsHaveAlarms
        (calendar (snd (cancelAlarm simpleEnv (setArchive (lateEvent 0)) MAIN_ALARM False
                          (idleApp [(''ev1'', lateEvent 0)]))))
   \<and> alarmCount (fst (cancelAlarm simpleEnv (setArchive (lateEvent 0)) MAIN_ALARM False
                          (idleApp [(''ev1'', lateEvent 0)]))) = 0
   \<and> map_of (calendar (snd (cancelAlarm simpleEnv (setArchive (lateEvent 0)) MAIN_ALARM False
                          (idleApp [(''ev1'', lateEvent 0)])))) ''ev1'' = None"
proof -
  let ?s = "idleApp [(''ev1'', lateEvent 0)]"
  let ?ev = "setArchive (lateEvent 0)"
  note t = cancelAlarm_deletes_or_persists [of simpleEnv ?ev MAIN_ALARM False ?s liveEventsHaveAlarms]
  have del: "\<forall>e c. liveEventsHaveAlarms c \<longrightarrow> liveEventsHaveAlarms (kDeleteEvent simpleEnv e False c)"
    by (simp add: simpleEnv_def storeDelete_def liveEventsHaveAlarms_def list_all_iff)
  have arch: "\<forall>e c. liveEventsHaveAlarms c
                \<longrightarrow> liveEventsHaveAlarms (snd (kAddArchivedEvent simpleEnv e c))"
    by (simp add: simpleEnv_def storeArchive_def liveEventsHaveAlarms_def isArchivedID_def
        archivedID_def)
  have upd: "\<forall>e c. liveEventsHaveAlarms c \<and> 0 < alarmCount e
                \<longrightarrow> liveEventsHaveAlarms (kUpdateEvent simpleEnv e c)"
    by (auto simp: simpleEnv_def storeUpdate_def liveEventsHaveAlarms_def list_all_iff
        alarmCount_def split: if_splits)
  have start: "liveEventsHaveAlarms (calendar ?s)"
    by (simp add: idleApp_def liveEventsHaveAlarms_def lateEvent_def messageEvent_def)
  have inv: "liveEventsHaveAlarms (calendar (snd (cancelAlarm simpleEnv ?ev MAIN_ALARM False ?s)))"
    using t del arch upd start by blast
  have eq: "cancelAlarm simpleEnv ?ev MAIN_ALARM False ?s =
     (let event' = removeExpiredAlarm (cancelCancelledDeferral ?ev) MAIN_ALARM;
          cal = (if MAIN_ALARM = MAIN_ALARM \<and> \<not> displaying ?ev \<and> toBeArchived ?ev
                 then snd (kAddArchivedEvent simpleEnv (cancelCancelledDeferral ?ev) (calendar ?s))
                 else calendar ?s)
      in (event', ?s\<lparr>calendar := (if alarmCount event' = 0
                                    then kDeleteEvent simpleEnv event' False cal
                                    else if False then kUpdateEvent simpleEnv event' cal
                                    else cal)\<rparr>))"
    using t by blast
  have count: "alarmCount (fst (cancelAlarm simpleEnv ?ev MAIN_ALARM False ?s)) = 0"
    unfolding eq
    by (simp add: Let_def removeExpiredAlarm_def cancelCancelledDeferral_def setArchive_def
        lateEvent_def messageEvent_def messageAlarm_def alarmCount_def)
  have gone: "map_of (calendar (snd (cancelAlarm simpleEnv ?ev MAIN_ALARM False ?s))) ''ev1'' = None"
    unfolding eq
    by (simp add: Let_def removeExpiredAlarm_def cancelCancelledDeferral_def setArchive_def
        lateEvent_def messageEvent_def messageAlarm_def alarmCount_def simpleEnv_def
        storeDelete_def storeArchive_def archivedID_def idleApp_def)
  show ?thesis
    using start inv count gone by simp
qed

subsection \<open>Command execution tracker\<close>

text \<open>
  C9. When the process of a tracked record flagged \<open>PRE_ACTION\<close> (which carries its
  alarm) completes, normally or not, \<open>slotCommandExited\<close> returns having made exactly
  one call of \<open>execAlarm\<close>, for the event and alarm of the record with
  \<open>noPreAction = true\<close> (and the reschedule and defer flags of the record). The record
  is removed from the tracker: the tracker is left with the records before it and after
  it, in their order, followed by the records of the processes that the call has created;
  so, the records being those of different processes created earlier, no record of the
  process that exited remains. And the record is deleted: its temporary files are removed,
  last.
\<close>

theorem slotCommandExited_preAction:
  assumes idx: "findProcess proc (mCommandProcesses s) = Some i"
    and pre: "PRE_ACTION \<in> pd_flags (mCommandProcesses s ! i)"
    and al: "pd_alarm (mCommandProcesses s ! i) = Some alarm"
  shows "\<exists>s' added. slotCommandExited env now proc normalExit errorMessage s = Some s'
     \<and> execCalls s' = execCalls s
          @ [ExecAlarm (pd_event (mCommandProcesses s ! i)) alarm
               (RESCHEDULE \<in> pd_flags (mCommandProcesses s ! i))
               (ALLOW_DEFER \<in> pd_flags (mCommandProcesses s ! i)) True]
     \<and> mCommandProcesses s'
          = take i (mCommandProcesses s) @ drop (Suc i) (mCommandProcesses s) @ added
     \<and> (\<forall>pd \<in> set added. nextProcess s \<le> pd_process pd)
     \<and> (distinct (map pd_process (mCommandProcesses s))
          \<and> (\<forall>pd \<in> set (mCommandProcesses s). pd_process pd < nextProcess s)
        \<longrightarrow> (\<forall>pd \<in> set (mCommandProcesses s'). pd_process pd \<noteq> proc))
     \<and> (\<exists>es. trace s' = trace s @ es @ map FileRemove (pd_tempFiles (mCommandProcesses s ! i)))"
proof -
  let ?pd = "mCommandProcesses s ! i"
  have i: "i < length (mCommandProcesses s)"
    using idx by (rule findProcess_less)
  obtain s1 added where
    res: "commandExited env now i ?pd normalExit errorMessage s = Some s1"
    and calls: "execCalls s1 = execCalls s @ [ExecAlarm (pd_event ?pd) alarm
                  (RESCHEDULE \<in> pd_flags ?pd) (ALLOW_DEFER \<in> pd_flags ?pd) True]"
    and procs: "mCommandProcesses s1
                  = take i (mCommandProcesses s) @ drop (Suc i) (mCommandProcesses s) @ added"
    and fresh: "\<forall>pd \<in> set added. nextProcess s \<le> pd_process pd"
    and tr: "\<exists>es. trace s1 = trace s @ es @ map FileRemove (pd_tempFiles ?pd)"
    using commandExited_preAction [OF i pre al, of env now normalExit errorMessage] by blast
  define s' where "s' = (if mPendingQuit s1 \<and> mCommandProcesses s1 = []
                         then quitIf env (mPendingQuitCode s1) False s1 else s1)"
  have out: "slotCommandExited env now proc normalExit errorMessage s = Some s'"
    using idx res by (simp add: slotCommandExited_def s'_def)
  have same: "execCalls s' = execCalls s1" "mCommandProcesses s' = mCommandProcesses s1"
    "trace s' = trace s1"
    by (simp_all add: s'_def execCalls_def quitIf_frame)
  have gone: "\<forall>pd \<in> set (mCommandProcesses s'). pd_process pd \<noteq> proc"
    if "distinct (map pd_process (mCommandProcesses s))
        \<and> (\<forall>pd \<in> set (mCommandProcesses s). pd_process pd < nextProcess s)"
  proof -
    have "findProcess proc (take i (mCommandProcesses s) @ drop (Suc i) (mCommandProcesses s)
                              @ added) = None"
      using idx that fresh by (intro findProcess_removed [where n = "nextProcess s"]) simp_all
    then show ?thesis
      unfolding same procs findProcess_None_iff by blast
  qed
  have calls': "execCalls s' = execCalls s @ [ExecAlarm (pd_event ?pd) alarm
                  (RESCHEDULE \<in> pd_flags ?pd) (ALLOW_DEFER \<in> pd_flags ?pd) True]"
    using calls by (simp only: same)
  have procs': "mCommandProcesses s'
                  = take i (mCommandProcesses s) @ drop (Suc i) (mCommandProcesses s) @ added"
    using procs by (simp only: same)
  have tr': "\<exists>es. trace s' = trace s @ es @ map FileRemove (pd_tempFiles ?pd)"
    using tr by (simp only: same)
  show ?thesis
    using out calls' procs' fresh gone tr' by blast
qed

theorem slotCommandExited_preAction_witness:
  "findProcess 7 (mCommandProcesses commandApp) = Some 1
   \<and> mCommandProcesses commandApp = [otherRecord, preActionRecord]
   \<and> PRE_ACTION \<in> pd_flags (mCommandProcesses commandApp ! 1)
   \<and> pd_alarm (mCommandProcesses commandApp ! 1) = Some (messageAlarm MAIN_ALARM 400 0)
   \<and> distinct (map pd_process (mCommandProcesses commandApp))
   \<and> list_all (\<lambda>pd. pd_process pd < nextProcess commandApp) (mCommandProcesses commandApp)
   \<and> (\<exists>s'. slotCommandExited simpleEnv 1000 7 True [] commandApp = Some s'
          \<and> execCalls s' = [ExecAlarm (lateEvent 0) (messageAlarm MAIN_ALARM 400 0) True True True]
          \<and> mCommandProcesses s' = [otherRecord]
          \<and> (\<forall>pd \<in> set (mCommandProcesses s'). pd_process pd \<noteq> 7)
          \<and> (\<exists>es. trace s' = es @ [FileRemove ''/tmp/kalarm7'']))"
proof -
  have idx: "findProcess 7 (mCommandProcesses commandApp) = Some 1"
    by (simp add: commandApp_def preActionRecord_def otherRecord_def)
  have all: "mCommandProcesses commandApp = [otherRecord, preActionRecord]"
    by (simp add: commandApp_def)
  have pre: "PRE_ACTION \<in> pd_flags (mCommandProcesses commandApp ! 1)"
    and al: "pd_alarm (mCommandProcesses commandApp ! 1) = Some (messageAlarm MAIN_ALARM 400 0)"
    by (simp_all add: commandApp_def preActionRecord_def)
  have dist: "distinct (map pd_process (mCommandProcesses commandApp))"
    and old: "\<forall>pd \<in> set (mCommandProcesses commandApp). pd_process pd < nextProcess commandApp"
    by (simp_all add: commandApp_def preActionRecord_def otherRecord_def)
  have start: "execCalls commandApp = []" "trace commandApp = []"
    "mCommandProcesses commandApp ! 1 = preActionRecord"
    "mCommandProcesses commandApp ! Suc 0 = preActionRecord"
    by (simp_all add: commandApp_def idleApp_def execCalls_def)
  obtain s' added where
    out: "slotCommandExited simpleEnv 1000 7 True [] commandApp = Some s'"
    and calls: "execCalls s' = execCalls commandApp
          @ [ExecAlarm (pd_event (mCommandProcesses commandApp ! 1)) (messageAlarm MAIN_ALARM 400 0)
               (RESCHEDULE \<in> pd_flags (mCommandProcesses commandApp ! 1))
               (ALLOW_DEFER \<in> pd_flags (mCommandProcesses commandApp ! 1)) True]"
    and procs: "mCommandProcesses s' = take 1 (mCommandProcesses commandApp)
                  @ drop (Suc 1) (mCommandProcesses commandApp) @ added"
    and gone: "distinct (map pd_process (mCommandProcesses commandApp))
          \<and> (\<forall>pd \<in> set (mCommandProcesses commandApp). pd_process pd < nextProcess commandApp)
        \<longrightarrow> (\<forall>pd \<in> set (mCommandProcesses s'). pd_process pd \<noteq> 7)"
    and tr: "\<exists>es. trace s' = trace commandApp @ es
                      @ map FileRemove (pd_tempFiles (mCommandProcesses commandApp ! 1))"
    using slotCommandExited_preAction [OF idx pre al, of simpleEnv 1000 True "[]"] by blast
  have tracker: "mCommandProcesses (the (slotCommandExited simpleEnv 1000 7 True [] commandApp))
                   = [otherRecord]"
    by (simp add: slotCommandExited_def commandExited_def execAlarm_def execDisplay_def
        showAlarm_def freshWindow_def findEvent_def deleteWin_def deleteProcData_def removeAt_def
        setArchive_def emit_def Let_def commandApp_def idleApp_def preActionRecord_def
        otherRecord_def lateEvent_def messageEvent_def messageAlarm_def utcDateTime_def
        simpleEnv_def)
  have left: "mCommandProcesses s' = [otherRecord]"
    using tracker out by simp
  have removed: "\<forall>pd \<in> set (mCommandProcesses s'). pd_process pd \<noteq> 7"
    using gone dist old by blast
  have files: "\<exists>es. trace s' = es @ [FileRemove ''/tmp/kalarm7'']"
    using tr by (simp add: start preActionRecord_def)
  have called: "execCalls s' = [ExecAlarm (lateEvent 0) (messageAlarm MAIN_ALARM 400 0)
                                  True True True]"
    using calls by (simp add: start preActionRecord_def)
  have older: "list_all (\<lambda>pd. pd_process pd < nextProcess commandApp)
                 (mCommandProcesses commandApp)"
    using old by (simp add: list_all_iff)
  show ?thesis
    using idx all pre al dist older out called left removed files by blast
qed

subsection \<open>Alarms at login\<close>

text \<open>
  C6 (as amended). For an at-login alarm whose time is less than \<open>maxLateness 1\<close> seconds
  before the current time, the scan of \<open>handleEvent\<close> skips the alarm on that pass: the
  pass selects nothing and changes nothing. For an event of the calendar that owns this
  alarm, no call of \<open>execAlarm\<close> is made for an at-login alarm during the invocation,
  whatever the function, unless the function is \<open>EVENT_TRIGGER\<close> and the at-login
  alarm is the first alarm that the event has after the scan (advancing the recurrence
  being assumed to leave the at-login alarm of an event alone).
\<close>

theorem handleEvent_atLogin_skipped:
  assumes login: "al_type alarm = AT_LOGIN_ALARM"
    and recent: "secsTo (al_dateTime alarm) now < maxLateness env 1"
  shows "scanAlarm env now alarm (sc, s) = (sc, s)
     \<and> (map_of (calendar s) ident = Some event
          \<and> alarmOfType event AT_LOGIN_ALARM = Some alarm
          \<and> (\<forall>ev t. alarmOfType (snd (setNextOccurrence env ev t)) AT_LOGIN_ALARM
                       = alarmOfType ev AT_LOGIN_ALARM)
          \<and> (func = EVENT_TRIGGER \<longrightarrow>
                al_type (firstAlarm (sc_event (fst (scanAlarms env now (firstAlarm event)
                                                     (initScan event, s))))) \<noteq> AT_LOGIN_ALARM)
        \<longrightarrow> filter (execOfType AT_LOGIN_ALARM) (trace (snd (handleEvent env now ident func s)))
              = filter (execOfType AT_LOGIN_ALARM) (trace s))"
proof (intro conjI impI)
  show "scanAlarm env now alarm (sc, s) = (sc, s)"
    using login recent by (rule scanAlarm_atLogin_skip)
next
  assume hyp: "map_of (calendar s) ident = Some event
     \<and> alarmOfType event AT_LOGIN_ALARM = Some alarm
     \<and> (\<forall>ev t. alarmOfType (snd (setNextOccurrence env ev t)) AT_LOGIN_ALARM
                  = alarmOfType ev AT_LOGIN_ALARM)
     \<and> (func = EVENT_TRIGGER \<longrightarrow>
           al_type (firstAlarm (sc_event (fst (scanAlarms env now (firstAlarm event)
                                                (initScan event, s))))) \<noteq> AT_LOGIN_ALARM)"
  then have found: "map_of (calendar s) ident = Some event"
    and has: "alarmOfType event AT_LOGIN_ALARM = Some alarm"
    and env: "\<And>ev t. alarmOfType (snd (setNextOccurrence env ev t)) AT_LOGIN_ALARM
                        = alarmOfType ev AT_LOGIN_ALARM"
    by simp_all
  obtain sc1 s1 where scan:
    "scanAlarms env now (firstAlarm event) (initScan event, s) = (sc1, s1)"
    by (cases "scanAlarms env now (firstAlarm event) (initScan event, s)")
  have forced: "func = EVENT_TRIGGER \<longrightarrow> al_type (firstAlarm (sc_event sc1)) \<noteq> AT_LOGIN_ALARM"
    using hyp by (simp add: scan)
  have first: "al_type (firstAlarm event) = AT_LOGIN_ALARM \<longrightarrow> firstAlarm event = alarm"
    using has firstOfTypes_atLogin [of event "MAIN_ALARM # laterTypes MAIN_ALARM"]
    by (auto simp: firstAlarm_def)
  have "al_type (sc_alarmToExecute (fst (scanAlarms env now (firstAlarm event)
                                            (initScan event, s)))) \<noteq> AT_LOGIN_ALARM"
    using env login recent _ _ first
    by (rule scanAlarms_atLogin) (simp_all add: initScan_def has KAAlarm0_def)
  then have other: "al_type (sc_alarmToExecute sc1) \<noteq> AT_LOGIN_ALARM"
    by (simp add: scan)
  have "quiet s (snd (scanAlarms env now (firstAlarm event) (initScan event, s)))"
    by (rule scanAlarms_quiet) (simp add: quiet_refl)
  then have same: "execCalls s1 = execCalls s"
    by (simp add: scan quiet_execCalls)
  have "filter (execOfType AT_LOGIN_ALARM) (execCalls (snd (handleEvent env now ident func s)))
          = filter (execOfType AT_LOGIN_ALARM) (execCalls s)"
  proof (cases "func = EVENT_CANCEL")
    case True
    then show ?thesis
      using found by (simp add: handleEvent_def execCalls_def)
  next
    case False
    then have "handleEvent env now ident func s = (True, dispatch env now ident func (sc1, s1))"
      using found by (cases func) (simp_all add: handleEvent_def scan)
    then show ?thesis
      using other same forced by (simp add: dispatch_calls)
  qed
  then show "filter (execOfType AT_LOGIN_ALARM) (trace (snd (handleEvent env now ident func s)))
             = filter (execOfType AT_LOGIN_ALARM) (trace s)"
    by (simp add: filter_execOfType)
qed

theorem handleEvent_atLogin_skipped_witness:
  "al_type (messageAlarm AT_LOGIN_ALARM 990 0) = AT_LOGIN_ALARM
   \<and> secsTo (al_dateTime (messageAlarm AT_LOGIN_ALARM 990 0)) 1000 < maxLateness simpleEnv 1
   \<and> alarmOfType mainAndLoginEvent AT_LOGIN_ALARM = Some (messageAlarm AT_LOGIN_ALARM 990 0)
   \<and> scanAlarm simpleEnv 1000 (messageAlarm AT_LOGIN_ALARM 990 0)
        (initScan mainAndLoginEvent, idleApp [(''ev1'', mainAndLoginEvent)])
       = (initScan mainAndLoginEvent, idleApp [(''ev1'', mainAndLoginEvent)])
   \<and> filter (execOfType AT_LOGIN_ALARM)
        (trace (snd (handleEvent simpleEnv 1000 ''ev1'' EVENT_TRIGGER
                       (idleApp [(''ev1'', mainAndLoginEvent)])))) = []"
proof -
  let ?s = "idleApp [(''ev1'', mainAndLoginEvent)]"
  let ?a = "messageAlarm AT_LOGIN_ALARM 990 0"
  have login: "al_type ?a = AT_LOGIN_ALARM"
    by (simp add: messageAlarm_def)
  have recent: "secsTo (al_dateTime ?a) 1000 < maxLateness simpleEnv 1"
    by (simp add: messageAlarm_def utcDateTime_def secsTo_def maxLateness_def LATENESS_LEEWAY_def
        int32_def simpleEnv_def)
  have has: "alarmOfType mainAndLoginEvent AT_LOGIN_ALARM = Some ?a"
    by (simp add: alarmOfType_def mainAndLoginEvent_def messageEvent_def messageAlarm_def)
  have found: "map_of (calendar ?s) ''ev1'' = Some mainAndLoginEvent"
    by (simp add: idleApp_def)
  have env: "\<forall>ev t. alarmOfType (snd (setNextOccurrence simpleEnv ev t)) AT_LOGIN_ALARM
                     = alarmOfType ev AT_LOGIN_ALARM"
    by (simp add: simpleEnv_def noRecurrence_def split: option.splits)
  have fm: "firstAlarm mainAndLoginEvent = messageAlarm MAIN_ALARM 400 0"
    by (simp add: firstAlarm_main mainAndLoginEvent_def messageEvent_def messageAlarm_def)
  have forced: "EVENT_TRIGGER = EVENT_TRIGGER \<longrightarrow>
      al_type (firstAlarm (sc_event (fst (scanAlarms simpleEnv 1000 (firstAlarm mainAndLoginEvent)
                                            (initScan mainAndLoginEvent, ?s))))) \<noteq> AT_LOGIN_ALARM"
    unfolding mainAndLogin_scan
    by (simp add: initScan_def fm messageAlarm_def)
  note t = handleEvent_atLogin_skipped [OF login recent,
      of "initScan mainAndLoginEvent" ?s "''ev1''" mainAndLoginEvent EVENT_TRIGGER]
  have skip: "scanAlarm simpleEnv 1000 ?a (initScan mainAndLoginEvent, ?s)
                = (initScan mainAndLoginEvent, ?s)"
    using t by blast
  have "filter (execOfType AT_LOGIN_ALARM)
          (trace (snd (handleEvent simpleEnv 1000 ''ev1'' EVENT_TRIGGER ?s)))
        = filter (execOfType AT_LOGIN_ALARM) (trace ?s)"
    using t found has env forced by blast
  moreover have "trace ?s = []"
    by (simp add: idleApp_def)
  ultimately show ?thesis
    using login recent has skip by simp
qed

text \<open>
  C6 as stated (nothing is executed for the alarm on that invocation, whatever the
  function) fails with \<open>EVENT_TRIGGER\<close>: when the scan has selected nothing, the first
  alarm of the event is executed whether due or not, and for an event left with its
  at-login alarm only, that is the alarm the scan has just skipped.
\<close>

theorem handleEvent_atLogin_skipped_counterexample:
  "al_type (messageAlarm AT_LOGIN_ALARM 990 0) = AT_LOGIN_ALARM
   \<and> secsTo (al_dateTime (messageAlarm AT_LOGIN_ALARM 990 0)) 1000 < maxLateness simpleEnv 1
   \<and> execCalls (snd (handleEvent simpleEnv 1000 ''ev1'' EVENT_TRIGGER
                       (idleApp [(''ev1'', loginEvent)])))
       = [ExecAlarm loginEvent (messageAlarm AT_LOGIN_ALARM 990 0) False True False]"
proof -
  let ?s = "idleApp [(''ev1'', loginEvent)]"
  let ?a = "messageAlarm AT_LOGIN_ALARM 990 0"
  have login: "al_type ?a = AT_LOGIN_ALARM"
    by (simp add: messageAlarm_def)
  have recent: "secsTo (al_dateTime ?a) 1000 < maxLateness simpleEnv 1"
    by (simp add: messageAlarm_def utcDateTime_def secsTo_def maxLateness_def LATENESS_LEEWAY_def
        int32_def simpleEnv_def)
  have first: "firstAlarm loginEvent = ?a"
    by (simp add: firstAlarm_def laterTypes_def alarmOfType_def loginEvent_def messageEvent_def
        messageAlarm_def)
  have v: "valid ?a"
    by (simp add: valid_def messageAlarm_def)
  have nxt: "nextAlarm loginEvent ?a = KAAlarm0"
    by (simp add: nextAlarm_def laterTypes_def messageAlarm_def)
  have scan: "scanAlarms simpleEnv 1000 (firstAlarm loginEvent) (initScan loginEvent, ?s)
                = (initScan loginEvent, ?s)"
    by (simp add: first scanAlarms_step [OF v] scanAlarm_atLogin_skip [OF login recent]
        initScan_event nxt scanAlarms_invalid valid_KAAlarm0)
  have "handleEvent simpleEnv 1000 ''ev1'' EVENT_TRIGGER ?s
          = (True, dispatch simpleEnv 1000 ''ev1'' EVENT_TRIGGER
                     (scanAlarms simpleEnv 1000 (firstAlarm loginEvent) (initScan loginEvent, ?s)))"
    by (simp add: handleEvent_def idleApp_def)
  then have "snd (handleEvent simpleEnv 1000 ''ev1'' EVENT_TRIGGER ?s)
      = snd (snd (execAlarm simpleEnv 1000 loginEvent ?a False (defaultAllowDefer simpleEnv)
                    (defaultNoPreAction simpleEnv) ?s))"
    unfolding scan
    by (simp add: dispatch_def triggerFirst_def initScan_def valid_KAAlarm0 first v Let_def
        case_prod_beta)
  then have "execCalls (snd (handleEvent simpleEnv 1000 ''ev1'' EVENT_TRIGGER ?s))
      = execCalls ?s @ [ExecAlarm loginEvent ?a False (defaultAllowDefer simpleEnv)
                          (defaultNoPreAction simpleEnv)]"
    by (simp only: execAlarm_execCalls)
  moreover have "execCalls ?s = []" "defaultAllowDefer simpleEnv" "\<not> defaultNoPreAction simpleEnv"
    by (simp_all add: execCalls_def idleApp_def simpleEnv_def)
  ultimately show ?thesis
    using login recent by simp
qed


end
